theory Spec2Isabelle
  imports Complex_Main "HOL-Library.Log_Nat" "HOL-Library.AList"
begin

section \<open>External libraries, taken as parameters\<close>

text \<open>
  The voting library calls the curve library (\<^verbatim>\<open>@noble/curves/jubjub\<close>), the hash
  library (\<^verbatim>\<open>@noble/hashes\<close>) and the Semaphore proof system. None of them is part of
  the repository, so each enters the embedding as a parameter.

  Curve points are the elements of a type \<open>'p\<close> of class \<open>ab_group_add\<close>:
  \<^verbatim>\<open>Point.ZERO\<close> is \<open>0\<close>, \<^verbatim>\<open>p.add(q)\<close> is \<open>p + q\<close> and \<^verbatim>\<open>p.subtract(q)\<close> is \<open>p - q\<close>.
  The remaining operations of the curve are the fields of a record. The exceptions of the
  libraries themselves (a scalar out of range, a malformed hex string) are not modelled: the
  statements about ElGamal are about scalars in range and encodings of points.
\<close>

record 'p curve =
  BASE :: 'p  \<comment> \<open>\<^verbatim>\<open>curve.Point.BASE\<close>, the constant \<^verbatim>\<open>G\<close>\<close>
  curve_n :: int  \<comment> \<open>\<^verbatim>\<open>curve.CURVE.n\<close>\<close>
  multiply :: "'p \<Rightarrow> int \<Rightarrow> 'p"  \<comment> \<open>\<^verbatim>\<open>p.multiply(k)\<close>\<close>
  toHex :: "'p \<Rightarrow> string"  \<comment> \<open>\<^verbatim>\<open>p.toHex()\<close>\<close>
  fromHex :: "string \<Rightarrow> 'p"  \<comment> \<open>\<^verbatim>\<open>curve.Point.fromHex(s)\<close>\<close>

text \<open>Repeated addition of a point: what scalar multiplication computes.\<close>

primrec scalar :: "nat \<Rightarrow> 'p::ab_group_add \<Rightarrow> 'p" where
  "scalar 0 p = 0"
| "scalar (Suc k) p = p + scalar k p"

definition MAX_VOTES :: nat where
  "MAX_VOTES = 10000"

text \<open>
  What the ElGamal module relies on: \<^verbatim>\<open>multiply\<close> is scalar multiplication for the
  scalars \<open>1 \<le> k < n\<close> (nothing is assumed of it outside this range, which is why the
  code encodes the message zero by \<^verbatim>\<open>Point.ZERO\<close>), the hex encoding of a point decodes
  to the point, the order exceeds \<open>MAX_VOTES\<close>, and the multiples \<open>0\<cdot>G, \<dots>, MAX_VOTES\<cdot>G\<close>
  are pairwise distinct.
\<close>

definition curve_ok :: "'p::ab_group_add curve \<Rightarrow> bool" where
  "curve_ok cv \<longleftrightarrow>
     int MAX_VOTES < curve_n cv \<and>
     (\<forall>p k. 1 \<le> k \<and> k < curve_n cv \<longrightarrow> multiply cv p k = scalar (nat k) p) \<and>
     (\<forall>p. fromHex cv (toHex cv p) = p) \<and>
     (\<forall>i j. i \<le> MAX_VOTES \<and> j \<le> MAX_VOTES \<and> scalar i (BASE cv) = scalar j (BASE cv) \<longrightarrow> i = j)"

text \<open>A thrown \<^verbatim>\<open>new Error(message)\<close>, with its message.\<close>

datatype error = Error string

text \<open>\<^verbatim>\<open>`${n}`\<close> for an integer \<open>n\<close>: its decimal digits.\<close>

fun decimalNat :: "nat \<Rightarrow> string" where
  "decimalNat n =
     (if n < 10 then [char_of (48 + n)]
      else decimalNat (n div 10) @ [char_of (48 + n mod 10)])"

definition decimalInt :: "int \<Rightarrow> string" where
  "decimalInt i = (if i < 0 then CHR ''-'' # decimalNat (nat (- i)) else decimalNat (nat i))"

section \<open>ElGamal (src/src/core/ElGamal.ts)\<close>

text \<open>
  The fields \<^verbatim>\<open>h\<close> and \<^verbatim>\<open>x\<close> of the key interfaces are named \<open>pub_h\<close> and \<open>priv_x\<close>.
\<close>

record ElGamalPublicKey =
  pub_h :: string

record ElGamalPrivateKey =
  priv_x :: int

record ElGamalKeyPair =
  publicKey :: ElGamalPublicKey
  privateKey :: ElGamalPrivateKey

record ElGamalCiphertext =
  c1 :: string
  c2 :: string

text \<open>The constructor of \<^verbatim>\<open>ElGamalKeyPair\<close>: \<^verbatim>\<open>h = G.multiply(privateKey.x)\<close>.\<close>

definition newKeyPair :: "'p::ab_group_add curve \<Rightarrow> ElGamalPrivateKey \<Rightarrow> ElGamalKeyPair" where
  "newKeyPair cv sk =
     \<lparr>publicKey = \<lparr>pub_h = toHex cv (multiply cv (BASE cv) (priv_x sk))\<rparr>, privateKey = sk\<rparr>"

text \<open>
  \<^verbatim>\<open>initDLogCache\<close>: the identity point is entered with value 0, then \<open>i\<cdot>G\<close> with value
  \<open>i\<close> for \<open>i = 1, \<dots>, MAX_VOTES\<close>; a \<^verbatim>\<open>set\<close> of a key already present overwrites its
  value. The cache is filled once and never changes, so it is determined by the curve.
\<close>

definition initDLogCache :: "'p::ab_group_add curve \<Rightarrow> (string \<rightharpoonup> int)" where
  "initDLogCache cv =
     fold (\<lambda>i m. m(toHex cv (multiply cv (BASE cv) i) \<mapsto> i))
       [1 .. int MAX_VOTES] [toHex cv 0 \<mapsto> 0]"

definition decrypt ::
  "'p::ab_group_add curve \<Rightarrow> ElGamalKeyPair \<Rightarrow> ElGamalCiphertext \<Rightarrow> error + int" where
  "decrypt cv kp ciphertext =
     (let p1 = fromHex cv (c1 ciphertext);
          p2 = fromHex cv (c2 ciphertext);
          s = multiply cv p1 (priv_x (privateKey kp));
          m = p2 - s
      in case initDLogCache cv (toHex cv m) of
           Some v \<Rightarrow> Inr v
         | None \<Rightarrow>
             Inl (Error (''Decryption failed: value not in range [0, 10000]. '' @
                         ''This likely means the ciphertext is invalid or corrupted.'')))"

text \<open>
  \<^verbatim>\<open>ElGamalCiphertext.encrypt\<close>. The argument \<open>rnd\<close> is the integer
  \<^verbatim>\<open>BigInt('0x' + bytesToHex(r))\<close> of the bytes \<^verbatim>\<open>r = curve.utils.randomSecretKey()\<close>.
\<close>

definition encrypt ::
  "'p::ab_group_add curve \<Rightarrow> int \<Rightarrow> ElGamalPublicKey \<Rightarrow> nat \<Rightarrow> error + ElGamalCiphertext" where
  "encrypt cv message pk rnd =
     (if message < 0 \<or> message > int MAX_VOTES
      then Inl (Error ''Message must be in range [0, 10000]'')
      else
        let rBigInt = int rnd mod curve_n cv;
            p1 = multiply cv (BASE cv) rBigInt;
            hp = fromHex cv (pub_h pk);
            s = multiply cv hp rBigInt;
            m = (if message = 0 then 0 else multiply cv (BASE cv) message);
            p2 = s + m
        in Inr \<lparr>c1 = toHex cv p1, c2 = toHex cv p2\<rparr>)"

text \<open>\<^verbatim>\<open>add\<close>: the first components are added, and the second components are added.\<close>

definition add ::
  "'p::ab_group_add curve \<Rightarrow> ElGamalCiphertext \<Rightarrow> ElGamalCiphertext \<Rightarrow> ElGamalCiphertext" where
  "add cv this other =
     (let c1_1 = fromHex cv (c1 this);
          c1_2 = fromHex cv (c2 this);
          c2_1 = fromHex cv (c1 other);
          c2_2 = fromHex cv (c2 other)
      in \<lparr>c1 = toHex cv (c1_1 + c2_1), c2 = toHex cv (c1_2 + c2_2)\<rparr>)"

text \<open>
  \<^verbatim>\<open>aggregate\<close>: \<^verbatim>\<open>reduce\<close> without an initial value starts from the first element and
  folds the rest from the left.
\<close>

definition aggregate ::
  "'p::ab_group_add curve \<Rightarrow> ElGamalCiphertext list \<Rightarrow> error + ElGamalCiphertext" where
  "aggregate cv ciphertexts =
     (case ciphertexts of
        [] \<Rightarrow> Inl (Error ''Cannot aggregate empty array'')
      | ct # cts \<Rightarrow> Inr (foldl (add cv) ct cts))"

section \<open>Vote vectors and the remaining platform functions\<close>

record VoteVector =
  encryptedVotes :: "ElGamalCiphertext list"
  candidateOrder :: "string list"

text \<open>
  Functions of the JavaScript platform and of the hash library. Dates are milliseconds
  since the epoch.
\<close>

record platform =
  sha256Hex :: "string \<Rightarrow> string"
    \<comment> \<open>\<^verbatim>\<open>bytesToHex(sha256(new TextEncoder().encode(s)))\<close>\<close>
  natOfHex :: "string \<Rightarrow> nat"
    \<comment> \<open>\<^verbatim>\<open>BigInt('0x' + s)\<close>, a non-negative integer\<close>
  toLowerCase :: "string \<Rightarrow> string"
  trim :: "string \<Rightarrow> string"
  bigIntToString :: "int \<Rightarrow> string"  \<comment> \<open>\<^verbatim>\<open>n.toString()\<close> of a bigint\<close>
  bigIntOfString :: "string \<Rightarrow> int option"  \<comment> \<open>\<^verbatim>\<open>BigInt(s)\<close>; \<open>None\<close> when it throws\<close>
  toISOString :: "int \<Rightarrow> string"
  addHours :: "int \<Rightarrow> int \<Rightarrow> int"
    \<comment> \<open>\<^verbatim>\<open>d.setHours(d.getHours() + k)\<close>, as the new time value\<close>
  stringifyVoteVector :: "VoteVector \<Rightarrow> nat list"
    \<comment> \<open>the UTF-8 bytes of \<^verbatim>\<open>JSON.stringify({encryptedVotes: [{c1, c2}, ...], candidateOrder})\<close>\<close>
  stringifyPublicKey :: "ElGamalPublicKey \<Rightarrow> string"
    \<comment> \<open>\<^verbatim>\<open>JSON.stringify(publicKey)\<close>\<close>
  merkleRoot :: "nat \<Rightarrow> string list \<Rightarrow> string"
    \<comment> \<open>\<^verbatim>\<open>new MerkleTree(levels, elements).root.toString()\<close>\<close>

text \<open>
  The Semaphore library. An identity is determined by its secret string, so the secret
  stands for the \<^verbatim>\<open>Identity\<close> object; a group is the list of its members.
\<close>

record 'pr semaphore =
  identityCommitment :: "string \<Rightarrow> int"  \<comment> \<open>\<^verbatim>\<open>new Identity(secret).commitment\<close>\<close>
  generateProof :: "string \<Rightarrow> int list \<Rightarrow> int \<Rightarrow> string \<Rightarrow> 'pr"
  verifyProof :: "'pr \<Rightarrow> bool"
  proofNullifier :: "'pr \<Rightarrow> int"  \<comment> \<open>\<^verbatim>\<open>proof.nullifier\<close>\<close>
  groupRoot :: "int list \<Rightarrow> int"  \<comment> \<open>\<^verbatim>\<open>group.root\<close>\<close>

definition fromPassword ::
  "'p::ab_group_add curve \<Rightarrow> platform \<Rightarrow> string \<Rightarrow> ElGamalKeyPair" where
  "fromPassword cv pf password =
     (let hash = sha256Hex pf password;
          xv = int (natOfHex pf hash) mod curve_n cv
      in newKeyPair cv \<lparr>priv_x = xv\<rparr>)"

section \<open>Voter (src/src/core/Voter.ts)\<close>

record VoterToken =
  token :: string
  token_hash :: string  \<comment> \<open>the field \<^verbatim>\<open>hash\<close>\<close>
  expiresAt :: int
  used :: bool

record Voter =
  voter_id :: string
  voter_email :: string
  identity :: string  \<comment> \<open>the secret of the \<^verbatim>\<open>Identity\<close>\<close>
  commitment :: string
  voter_token :: "VoterToken option"  \<comment> \<open>the private field \<^verbatim>\<open>_token\<close>\<close>

definition newVoter :: "platform \<Rightarrow> 'pr semaphore \<Rightarrow> string \<Rightarrow> string \<Rightarrow> Voter" where
  "newVoter pf sem email electionId =
     (let secret = email @ '':'' @ electionId
      in \<lparr>voter_id = electionId @ ''-'' @ email,
          voter_email = email,
          identity = secret,
          commitment = bigIntToString pf (identityCommitment sem secret),
          voter_token = None\<rparr>)"

text \<open>
  \<^verbatim>\<open>generateToken\<close>: \<open>randomPart\<close> is \<^verbatim>\<open>bytesToHex(randomBytes(32))\<close> and \<open>now\<close> the
  current time. The new token and the updated voter are returned.
\<close>

definition generateToken ::
  "platform \<Rightarrow> string \<Rightarrow> int \<Rightarrow> int \<Rightarrow> Voter \<Rightarrow> VoterToken \<times> Voter" where
  "generateToken pf randomPart now expiryHours v =
     (let tok = voter_id v @ '':'' @ randomPart;
          hash = sha256Hex pf tok;
          t = \<lparr>token = tok, token_hash = hash,
               expiresAt = addHours pf now expiryHours, used = False\<rparr>
      in (t, v\<lparr>voter_token := Some t\<rparr>))"

definition verifyToken :: "platform \<Rightarrow> Voter \<Rightarrow> string \<Rightarrow> bool" where
  "verifyToken pf v tok =
     (case voter_token v of
        None \<Rightarrow> False
      | Some t \<Rightarrow> (let hash = sha256Hex pf tok in hash = token_hash t \<and> \<not> used t))"

definition markTokenUsed :: "Voter \<Rightarrow> Voter" where
  "markTokenUsed v =
     (case voter_token v of
        None \<Rightarrow> v
      | Some t \<Rightarrow> v\<lparr>voter_token := Some (t\<lparr>used := True\<rparr>)\<rparr>)"

definition isTokenExpired :: "int \<Rightarrow> Voter \<Rightarrow> bool" where
  "isTokenExpired now v =
     (case voter_token v of
        None \<Rightarrow> True
      | Some t \<Rightarrow> now > expiresAt t)"

definition getInviteLink :: "Voter \<Rightarrow> string \<Rightarrow> error + string" where
  "getInviteLink v baseUrl =
     (case voter_token v of
        None \<Rightarrow> Inl (Error ''Token not generated'')
      | Some t \<Rightarrow> Inr (baseUrl @ ''/vote/'' @ token t))"

text \<open>\<^verbatim>\<open>s.split(sep)\<close> for a separator of one character.\<close>

fun split_on :: "char \<Rightarrow> string \<Rightarrow> string list" where
  "split_on sep [] = [[]]"
| "split_on sep (c # cs) =
     (if c = sep then [] # split_on sep cs
      else (case split_on sep cs of
              w # ws \<Rightarrow> (c # w) # ws
            | [] \<Rightarrow> [[c]]))"

definition parseToken :: "string \<Rightarrow> string option" where
  "parseToken tok =
     (let parts = split_on CHR '':'' tok
      in if length parts < 2 then None else Some (hd parts))"

section \<open>VoterMerkleTree (src/unnamed/part_005)\<close>

text \<open>
  The tree of \<^verbatim>\<open>fixed-merkle-tree\<close>: its levels and its elements. The library refuses
  more elements than the \<open>2 ^ levels\<close> leaves hold.
\<close>

record MerkleTree =
  levels :: nat
  elements :: "string list"

definition newMerkleTree :: "nat \<Rightarrow> string list \<Rightarrow> error + MerkleTree" where
  "newMerkleTree lv els =
     (if length els > 2 ^ lv then Inl (Error ''Tree is full'')
      else Inr \<lparr>levels = lv, elements = els\<rparr>)"

record VoterEligibilityData =
  ved_email :: string
  leafHash :: string
  ved_index :: nat

text \<open>
  \<^verbatim>\<open>voterMap\<close> is a JavaScript \<^verbatim>\<open>Map\<close>: an association list in insertion order, where
  \<^verbatim>\<open>set\<close> replaces the value of a key already present and appends a new key.
\<close>

record VoterMerkleTree =
  tree :: MerkleTree
  voterMap :: "(string \<times> nat) list"
  voterData :: "VoterEligibilityData list"

text \<open>
  \<^verbatim>\<open>Math.ceil(Math.log2(n))\<close>, with the logarithm taken exactly: \<open>ceillog2 n\<close> is
  \<open>\<lceil>log 2 n\<rceil>\<close> for \<open>n > 0\<close>.
\<close>

definition calculateDepth :: "nat \<Rightarrow> nat" where
  "calculateDepth numberOfVoters =
     (if numberOfVoters = 0 then 1 else ceillog2 numberOfVoters)"

definition hashEmail :: "platform \<Rightarrow> string \<Rightarrow> string" where
  "hashEmail pf email =
     (let normalized = trim pf (toLowerCase pf email) in sha256Hex pf normalized)"

text \<open>\<^verbatim>\<open>s.includes(sub)\<close>.\<close>

fun str_includes :: "string \<Rightarrow> string \<Rightarrow> bool" where
  "str_includes [] sub = (sub = [])"
| "str_includes (c # cs) sub = (take (length sub) (c # cs) = sub \<or> str_includes cs sub)"

text \<open>\<^verbatim>\<open>Array.from(new Set(xs))\<close>: the first occurrence of every element, in order.\<close>

definition uniq :: "'a list \<Rightarrow> 'a list" where
  "uniq xs = foldl (\<lambda>acc e. if e \<in> set acc then acc else acc @ [e]) [] xs"

text \<open>The voter map that \<^verbatim>\<open>set(email, index)\<close> builds over the emails in order.\<close>

definition buildVoterMap :: "string list \<Rightarrow> (string \<times> nat) list" where
  "buildVoterMap emails =
     fold (\<lambda>(email, i) m. AList.update email i m) (zip emails [0 ..< length emails]) []"

text \<open>
  The constructor. \<^verbatim>\<open>lines[0]\<close> and \<^verbatim>\<open>line.split(',')[0]\<close> exist, since \<^verbatim>\<open>split\<close> returns at
  least one string; the warning about removed duplicates is not modelled.
\<close>

definition newVoterMerkleTree :: "platform \<Rightarrow> string \<Rightarrow> error + VoterMerkleTree" where
  "newVoterMerkleTree pf csvContent =
     (let lines = split_on (CHR 0x0A) (trim pf csvContent);
          startIndex = (if str_includes (toLowerCase pf (hd lines)) ''email'' then 1 else 0);
          rawEmails =
            filter (\<lambda>email. length email > 0 \<and> str_includes email ''@'')
              (map (\<lambda>line. toLowerCase pf (trim pf (hd (split_on CHR '','' line))))
                 (drop startIndex lines))
      in if length rawEmails = 0 then Inl (Error ''No valid emails found in CSV'')
         else
           let emails = uniq rawEmails;
               depth = calculateDepth (length emails);
               els = map (hashEmail pf) emails
           in case newMerkleTree depth els of
                Inl er \<Rightarrow> Inl er
              | Inr t \<Rightarrow>
                  Inr \<lparr>tree = t,
                       voterMap = buildVoterMap emails,
                       voterData =
                         map (\<lambda>(email, i). \<lparr>ved_email = email, leafHash = els ! i, ved_index = i\<rparr>)
                           (zip emails [0 ..< length emails])\<rparr>)"

definition rebuildTree :: "VoterMerkleTree \<Rightarrow> error + VoterMerkleTree" where
  "rebuildTree t =
     (let depth = calculateDepth (length (voterData t));
          els = map leafHash (voterData t)
      in case newMerkleTree depth els of
           Inl er \<Rightarrow> Inl er
         | Inr mt \<Rightarrow>
             Inr \<lparr>tree = mt,
                  voterMap = buildVoterMap (map ved_email (voterData t)),
                  voterData =
                    map (\<lambda>(voter, i). voter\<lparr>ved_index := i\<rparr>)
                      (zip (voterData t) [0 ..< length (voterData t)])\<rparr>)"

definition Map_has :: "('k \<times> 'v) list \<Rightarrow> 'k \<Rightarrow> bool" where
  "Map_has m k = (map_of m k \<noteq> None)"

text \<open>
  \<^verbatim>\<open>addVoter\<close>, \<^verbatim>\<open>addVoters\<close> and \<^verbatim>\<open>updateVoter\<close> return what the call returns or throws,
  and the tree object as the call leaves it. \<^verbatim>\<open>rebuildTree\<close> assigns the fields only after
  the library has built the new tree.
\<close>

definition addVoter ::
  "platform \<Rightarrow> string \<Rightarrow> VoterMerkleTree \<Rightarrow> (error + VoterEligibilityData) \<times> VoterMerkleTree" where
  "addVoter pf email t =
     (let normalized = trim pf (toLowerCase pf email)
      in if Map_has (voterMap t) normalized
         then (Inl (Error (''Voter '' @ email @ '' already exists in tree'')), t)
         else
           let lh = hashEmail pf normalized;
               newIndex = length (voterData t);
               newVoterData = \<lparr>ved_email = normalized, leafHash = lh, ved_index = newIndex\<rparr>;
               pushed = t\<lparr>voterData := voterData t @ [newVoterData]\<rparr>
           in case rebuildTree pushed of
                Inl er \<Rightarrow> (Inl er, pushed)
              | Inr t' \<Rightarrow> (Inr newVoterData, t'))"

text \<open>
  The loop of \<^verbatim>\<open>addVoters\<close>: every email is looked up in the voter map as it was before
  the call (the map changes only in \<^verbatim>\<open>rebuildTree\<close>), and its entry is pushed at once. A
  throw ends the loop; the entries pushed before it stay in \<^verbatim>\<open>voterData\<close>.
\<close>

fun addVoters_loop ::
  "platform \<Rightarrow> (string \<times> nat) list \<Rightarrow> string list \<Rightarrow>
   VoterEligibilityData list \<times> VoterEligibilityData list \<Rightarrow>
   error option \<times> VoterEligibilityData list \<times> VoterEligibilityData list" where
  "addVoters_loop pf vm [] (vd, newVoters) = (None, vd, newVoters)"
| "addVoters_loop pf vm (email # rest) (vd, newVoters) =
     (let normalized = trim pf (toLowerCase pf email)
      in if Map_has vm normalized
         then (Some (Error (''Voter '' @ email @ '' already exists in tree'')), vd, newVoters)
         else
           let lh = hashEmail pf normalized;
               newIndex = length vd;
               entry = \<lparr>ved_email = normalized, leafHash = lh, ved_index = newIndex\<rparr>
           in addVoters_loop pf vm rest (vd @ [entry], newVoters @ [entry]))"

definition addVoters ::
  "platform \<Rightarrow> string list \<Rightarrow> VoterMerkleTree \<Rightarrow>
   (error + VoterEligibilityData list) \<times> VoterMerkleTree" where
  "addVoters pf emails t =
     (case addVoters_loop pf (voterMap t) emails (voterData t, []) of
        (Some er, vd, newVoters) \<Rightarrow> (Inl er, t\<lparr>voterData := vd\<rparr>)
      | (None, vd, newVoters) \<Rightarrow>
          (case rebuildTree (t\<lparr>voterData := vd\<rparr>) of
             Inl er \<Rightarrow> (Inl er, t\<lparr>voterData := vd\<rparr>)
           | Inr t' \<Rightarrow> (Inr newVoters, t')))"

text \<open>
  \<^verbatim>\<open>updateVoter\<close>. The index comes from the voter map, whose values are positions of
  \<^verbatim>\<open>voterData\<close>, so the assignment replaces an existing entry.
\<close>

definition updateVoter ::
  "platform \<Rightarrow> string \<Rightarrow> string \<Rightarrow> VoterMerkleTree \<Rightarrow>
   (error + VoterEligibilityData) \<times> VoterMerkleTree" where
  "updateVoter pf oldEmail newEmail t =
     (let normalizedOld = trim pf (toLowerCase pf oldEmail);
          normalizedNew = trim pf (toLowerCase pf newEmail)
      in case map_of (voterMap t) normalizedOld of
           None \<Rightarrow> (Inl (Error (''Voter '' @ oldEmail @ '' not found in tree'')), t)
         | Some i \<Rightarrow>
             (let newLeafHash = hashEmail pf normalizedNew;
                  replaced = t\<lparr>voterData := list_update (voterData t) i
                         \<lparr>ved_email = normalizedNew, leafHash = newLeafHash, ved_index = i\<rparr>\<rparr>
              in case rebuildTree replaced of
                   Inl er \<Rightarrow> (Inl er, replaced)
                 | Inr t' \<Rightarrow> (Inr (voterData t' ! i), t')))"

definition getRoot :: "platform \<Rightarrow> VoterMerkleTree \<Rightarrow> string" where
  "getRoot pf t = merkleRoot pf (levels (tree t)) (elements (tree t))"

definition isEligible :: "platform \<Rightarrow> VoterMerkleTree \<Rightarrow> string \<Rightarrow> bool" where
  "isEligible pf t email = Map_has (voterMap t) (trim pf (toLowerCase pf email))"


definition tree_depth :: "VoterMerkleTree \<Rightarrow> nat" where
  "tree_depth t = levels (tree t)"

section \<open>Vote (src/src/core/Vote.ts)\<close>

record VoteReceipt =
  receiptId :: string
  receipt_electionId :: string
  voteVectorHash :: string
  receipt_timestamp :: int
  receipt_nullifier :: string

record 'pr Vote =
  voteVector :: VoteVector
  vote_proof :: 'pr  \<comment> \<open>the field \<^verbatim>\<open>proof\<close>\<close>
  nullifier :: string
  receipt :: VoteReceipt
  timestamp :: int

definition hashVoteVector :: "platform \<Rightarrow> VoteVector \<Rightarrow> int" where
  "hashVoteVector pf vv =
     foldl (\<lambda>hash b. (hash * 256 + int b) mod 2 ^ 253) 0 (stringifyVoteVector pf vv)"

definition generateReceipt ::
  "platform \<Rightarrow> VoteVector \<Rightarrow> string \<Rightarrow> int \<Rightarrow> string \<Rightarrow> VoteReceipt" where
  "generateReceipt pf vv nf ts electionId =
     (let vvh = bigIntToString pf (hashVoteVector pf vv);
          receiptData = electionId @ '':'' @ vvh @ '':'' @ nf @ '':'' @ toISOString pf ts;
          rid = sha256Hex pf receiptData
      in \<lparr>receiptId = rid, receipt_electionId = electionId, voteVectorHash = vvh,
          receipt_timestamp = ts, receipt_nullifier = nf\<rparr>)"

text \<open>The private constructor; \<open>now\<close> is the value of \<^verbatim>\<open>new Date()\<close>.\<close>

definition newVote ::
  "platform \<Rightarrow> 'pr semaphore \<Rightarrow> int \<Rightarrow> VoteVector \<Rightarrow> 'pr \<Rightarrow> string \<Rightarrow> 'pr Vote" where
  "newVote pf sem now vv prf electionId =
     (let nf = bigIntToString pf (proofNullifier sem prf)
      in \<lparr>voteVector = vv, vote_proof = prf, nullifier = nf,
          receipt = generateReceipt pf vv nf now electionId, timestamp = now\<rparr>)"

text \<open>
  The loop of \<^verbatim>\<open>cast\<close> over the candidate order. \<open>rand k\<close> is the random integer that
  the \<open>k\<close>-th call of \<^verbatim>\<open>encrypt\<close> draws.
\<close>

fun encryptVotes ::
  "'p::ab_group_add curve \<Rightarrow> string \<Rightarrow> ElGamalPublicKey \<Rightarrow> (nat \<Rightarrow> nat) \<Rightarrow> nat \<Rightarrow>
   string list \<Rightarrow> ElGamalCiphertext list \<Rightarrow> error + ElGamalCiphertext list" where
  "encryptVotes cv selectedCandidateId pk rand k [] acc = Inr acc"
| "encryptVotes cv selectedCandidateId pk rand k (candidateId # rest) acc =
     (let voteValue = (if candidateId = selectedCandidateId then 1 else 0)
      in case encrypt cv voteValue pk (rand k) of
           Inl er \<Rightarrow> Inl er
         | Inr encryptedVote \<Rightarrow>
             encryptVotes cv selectedCandidateId pk rand (Suc k) rest (acc @ [encryptedVote]))"

definition cast ::
  "'p::ab_group_add curve \<Rightarrow> platform \<Rightarrow> 'pr semaphore \<Rightarrow> (nat \<Rightarrow> nat) \<Rightarrow> int \<Rightarrow>
   string \<Rightarrow> int list \<Rightarrow> string \<Rightarrow> string list \<Rightarrow> ElGamalPublicKey \<Rightarrow> string \<Rightarrow>
   error + 'pr Vote" where
  "cast cv pf sem rand now voterIdentity electionGroup selectedCandidateId order pk electionId =
     (case encryptVotes cv selectedCandidateId pk rand 0 order [] of
        Inl er \<Rightarrow> Inl er
      | Inr evs \<Rightarrow>
          let vv = \<lparr>encryptedVotes = evs, candidateOrder = order\<rparr>;
              message = hashVoteVector pf vv;
              prf = generateProof sem voterIdentity electionGroup message electionId
          in Inr (newVote pf sem now vv prf electionId))"

definition verify :: "'pr semaphore \<Rightarrow> 'pr Vote \<Rightarrow> bool" where
  "verify sem vote = verifyProof sem (vote_proof vote)"

definition getCandidateOrder :: "'pr Vote \<Rightarrow> string list" where
  "getCandidateOrder vote = candidateOrder (voteVector vote)"

definition getEncryptedVoteAt :: "'pr Vote \<Rightarrow> int \<Rightarrow> error + ElGamalCiphertext" where
  "getEncryptedVoteAt vote position =
     (if position < 0 \<or> position \<ge> int (length (encryptedVotes (voteVector vote)))
      then Inl (Error (''Invalid position: '' @ decimalInt position))
      else Inr (encryptedVotes (voteVector vote) ! nat position))"

section \<open>Election (src/unnamed/part_004)\<close>

datatype Status = Draft | Active | Ended

record Candidate =
  cand_id :: string
  cand_name :: string
  cand_description :: "string option"

record ElectionConfig =
  cfg_id :: string
  cfg_title :: string
  cfg_description :: "string option"
  cfg_candidates :: "Candidate list"
  trusteePassword :: string

record ElectionState =
  st_id :: string
  st_title :: string
  st_status :: Status
  st_publicKey :: string
  st_groupRoot :: string
  st_groupMembers :: "string list"
  st_candidates :: "Candidate list"
  st_eligibilityRoot :: "string option"
  st_eligibilityDepth :: "nat option"
  st_createdAt :: int
  st_startedAt :: "int option"
  st_endedAt :: "int option"

text \<open>
  \<^verbatim>\<open>voters\<close> is a \<^verbatim>\<open>Map\<close> (an association list in insertion order) and
  \<^verbatim>\<open>usedNullifiers\<close> a \<^verbatim>\<open>Set\<close>: the list of its elements in insertion order, where
  \<^verbatim>\<open>add\<close> appends a value that is not yet in it. The \<^verbatim>\<open>size\<close> of either is the length.
\<close>

record 'pr Election =
  elec_id :: string
  title :: string
  candidates :: "Candidate list"
  keyPair :: ElGamalKeyPair
  elec_group :: "int list"
  voters :: "(string \<times> Voter) list"
  votes :: "'pr Vote list"
  usedNullifiers :: "string list"
  eligibilityTree :: "VoterMerkleTree option"
  status :: Status
  createdAt :: int
  startedAt :: "int option"
  endedAt :: "int option"

definition Set_has :: "'a list \<Rightarrow> 'a \<Rightarrow> bool" where
  "Set_has s v = (v \<in> set s)"

definition Set_add :: "'a list \<Rightarrow> 'a \<Rightarrow> 'a list" where
  "Set_add s v = (if v \<in> set s then s else s @ [v])"

definition newElection ::
  "'p::ab_group_add curve \<Rightarrow> platform \<Rightarrow> int \<Rightarrow> ElectionConfig \<Rightarrow> 'pr Election" where
  "newElection cv pf now config =
     \<lparr>elec_id = cfg_id config,
      title = cfg_title config,
      candidates = cfg_candidates config,
      keyPair = fromPassword cv pf (trusteePassword config),
      elec_group = [],
      voters = [],
      votes = [],
      usedNullifiers = [],
      eligibilityTree = None,
      status = Draft,
      createdAt = now,
      startedAt = None,
      endedAt = None\<rparr>"

text \<open>
  The loop shared by \<^verbatim>\<open>uploadVoters\<close> and \<^verbatim>\<open>addVoters\<close>: create the voter, store it
  under its id, add its commitment to the group (\<^verbatim>\<open>BigInt(voter.commitment)\<close> is the
  commitment of the identity, whose decimal string the voter holds) and collect it.
\<close>

fun enrol ::
  "platform \<Rightarrow> 'pr semaphore \<Rightarrow> string list \<Rightarrow> 'pr Election \<times> Voter list \<Rightarrow>
   'pr Election \<times> Voter list" where
  "enrol pf sem [] (e, newVoters) = (e, newVoters)"
| "enrol pf sem (email # rest) (e, newVoters) =
     (let voter = newVoter pf sem email (elec_id e);
          e' = e\<lparr>voters := AList.update (voter_id voter) voter (voters e),
                 elec_group := elec_group e @ [identityCommitment sem (identity voter)]\<rparr>
      in enrol pf sem rest (e', newVoters @ [voter]))"

record UploadVotersResult =
  up_totalVoters :: nat
  up_merkleRoot :: string
  up_merkleDepth :: nat
  up_voterData :: "VoterEligibilityData list"
  up_voters :: "Voter list"

definition uploadVoters ::
  "platform \<Rightarrow> 'pr semaphore \<Rightarrow> string \<Rightarrow> 'pr Election \<Rightarrow>
   error + UploadVotersResult \<times> 'pr Election" where
  "uploadVoters pf sem csvContent e =
     (case newVoterMerkleTree pf csvContent of
        Inl er \<Rightarrow> Inl er
      | Inr t \<Rightarrow>
          let (e', vs) =
                enrol pf sem (map ved_email (voterData t)) (e\<lparr>eligibilityTree := Some t\<rparr>, [])
          in Inr (\<lparr>up_totalVoters = length (voterData t),
                   up_merkleRoot = getRoot pf t,
                   up_merkleDepth = tree_depth t,
                   up_voterData = voterData t,
                   up_voters = vs\<rparr>, e'))"

definition Election_addVoters ::
  "platform \<Rightarrow> 'pr semaphore \<Rightarrow> string list \<Rightarrow> 'pr Election \<Rightarrow> Voter list \<times> 'pr Election" where
  "Election_addVoters pf sem voterEmails e =
     (let (e', vs) = enrol pf sem voterEmails (e, []) in (vs, e'))"

definition start :: "int \<Rightarrow> 'pr Election \<Rightarrow> error + 'pr Election" where
  "start now e =
     (if status e \<noteq> Draft then Inl (Error ''Election already started'')
      else if length (voters e) = 0 then Inl (Error ''Cannot start election with no voters'')
      else Inr (e\<lparr>status := Active, startedAt := Some now\<rparr>))"

definition end_election :: "int \<Rightarrow> 'pr Election \<Rightarrow> error + 'pr Election" where
  "end_election now e =
     (if status e \<noteq> Active then Inl (Error ''Election is not active'')
      else Inr (e\<lparr>status := Ended, endedAt := Some now\<rparr>))"

text \<open>\<^verbatim>\<open>a.length === b.length && a.every((val, i) => val === b[i])\<close>.\<close>

definition arraysEqual :: "string list \<Rightarrow> string list \<Rightarrow> bool" where
  "arraysEqual a b =
     (length a = length b \<and> list_all (\<lambda>(val, i). val = b ! i) (zip a [0 ..< length a]))"

record SubmitResult =
  success :: bool
  error_message :: "string option"  \<comment> \<open>the optional field \<^verbatim>\<open>error\<close>\<close>

text \<open>\<^verbatim>\<open>submitVote\<close> returns its result and the election after the call.\<close>

definition submitVote ::
  "'pr semaphore \<Rightarrow> 'pr Vote \<Rightarrow> 'pr Election \<Rightarrow> SubmitResult \<times> 'pr Election" where
  "submitVote sem vote e =
     (if status e \<noteq> Active
      then (\<lparr>success = False, error_message = Some ''Election is not active''\<rparr>, e)
      else if Set_has (usedNullifiers e) (nullifier vote)
      then (\<lparr>success = False, error_message = Some ''Voter has already voted''\<rparr>, e)
      else
        let isValid = verify sem vote
        in if \<not> isValid
           then (\<lparr>success = False, error_message = Some ''Invalid vote proof''\<rparr>, e)
           else
             let expectedOrder = map cand_id (candidates e)
             in if \<not> arraysEqual (getCandidateOrder vote) expectedOrder
                then (\<lparr>success = False,
                       error_message = Some ''Invalid candidate order in vote vector''\<rparr>, e)
                else (\<lparr>success = True, error_message = None\<rparr>,
                      e\<lparr>votes := votes e @ [vote],
                        usedNullifiers := Set_add (usedNullifiers e) (nullifier vote)\<rparr>))"

text \<open>A loop whose body may throw: the first error ends it.\<close>

fun mapE :: "('a \<Rightarrow> error + 'b) \<Rightarrow> 'a list \<Rightarrow> error + 'b list" where
  "mapE f [] = Inr []"
| "mapE f (a # as) =
     (case f a of
        Inl er \<Rightarrow> Inl er
      | Inr b \<Rightarrow> (case mapE f as of Inl er \<Rightarrow> Inl er | Inr bs \<Rightarrow> Inr (b # bs)))"

text \<open>The second loop of \<^verbatim>\<open>tallyResults\<close>: decrypt each total and store it in the result map.\<close>

fun decryptTotals ::
  "'p::ab_group_add curve \<Rightarrow> ElGamalKeyPair \<Rightarrow> (string \<times> ElGamalCiphertext) list \<Rightarrow>
   (string \<times> int) list \<Rightarrow> error + (string \<times> int) list" where
  "decryptTotals cv kp [] results = Inr results"
| "decryptTotals cv kp ((candidateId, ct) # rest) results =
     (case decrypt cv kp ct of
        Inl er \<Rightarrow> Inl er
      | Inr tot \<Rightarrow> decryptTotals cv kp rest (AList.update candidateId tot results))"

text \<open>
  \<^verbatim>\<open>tallyResults\<close> assigns no field of the election; the election after the call is
  returned beside the result.
\<close>

definition tallyResults ::
  "'p::ab_group_add curve \<Rightarrow> platform \<Rightarrow> string \<Rightarrow> 'pr Election \<Rightarrow>
   (error + (string \<times> int) list) \<times> 'pr Election" where
  "tallyResults cv pf password e =
     (if status e \<noteq> Ended then (Inl (Error ''Cannot tally votes until election ends''), e)
      else
        let testKeyPair = fromPassword cv pf password
        in if pub_h (publicKey testKeyPair) \<noteq> pub_h (publicKey (keyPair e))
           then (Inl (Error ''Invalid trustee password''), e)
           else if length (votes e) = 0
           then (Inr (fold (\<lambda>c results. AList.update (cand_id c) 0 results) (candidates e) []), e)
           else
             let order = map cand_id (candidates e)
             in case mapE (\<lambda>pos.
                       case mapE (\<lambda>vote. getEncryptedVoteAt vote (int pos)) (votes e) of
                         Inl er \<Rightarrow> Inl er
                       | Inr votesAtPosition \<Rightarrow> aggregate cv votesAtPosition)
                     [0 ..< length order] of
                  Inl er \<Rightarrow> (Inl er, e)
                | Inr aggregatedByPosition \<Rightarrow>
                    (decryptTotals cv (keyPair e) (zip order aggregatedByPosition) [], e))"

record ElectionStats =
  totalVoters :: nat
  totalVotes :: nat
  turnout :: real
  votesByCandidateCount :: "(string \<times> nat) list"

definition getStats :: "'pr Election \<Rightarrow> ElectionStats" where
  "getStats e =
     \<lparr>totalVoters = length (voters e),
      totalVotes = length (usedNullifiers e),
      turnout =
        (if length (voters e) > 0
         then (real (length (usedNullifiers e)) / real (length (voters e))) * 100
         else 0),
      votesByCandidateCount =
        fold (\<lambda>c m. AList.update (cand_id c) (length (votes e)) m) (candidates e) []\<rparr>"


text \<open>
  \<^verbatim>\<open>Election.import\<close>. The only step that can throw is \<^verbatim>\<open>BigInt(m)\<close> on a member string
  that is no integer; \<open>now\<close> is the time the constructor reads.
\<close>

fun parseMembers :: "platform \<Rightarrow> string list \<Rightarrow> error + int list" where
  "parseMembers pf [] = Inr []"
| "parseMembers pf (m # ms) =
     (case bigIntOfString pf m of
        None \<Rightarrow> Inl (Error (''Cannot convert '' @ m @ '' to a BigInt''))
      | Some v \<Rightarrow> (case parseMembers pf ms of Inl er \<Rightarrow> Inl er | Inr vs \<Rightarrow> Inr (v # vs)))"

definition Election_import ::
  "'p::ab_group_add curve \<Rightarrow> platform \<Rightarrow> int \<Rightarrow> ElectionState \<Rightarrow> string \<Rightarrow>
   error + 'pr Election" where
  "Election_import cv pf now state password =
     (let election =
            newElection cv pf now
              \<lparr>cfg_id = st_id state, cfg_title = st_title state, cfg_description = None,
               cfg_candidates = st_candidates state, trusteePassword = password\<rparr>;
          election = election\<lparr>status := st_status state,
                               createdAt := st_createdAt state,
                               startedAt := st_startedAt state,
                               endedAt := st_endedAt state\<rparr>
      in case parseMembers pf (st_groupMembers state) of
           Inl er \<Rightarrow> Inl er
         | Inr members \<Rightarrow> Inr (election\<lparr>elec_group := elec_group election @ members\<rparr>))"

section \<open>Sequences of operations\<close>

text \<open>
  The elections that a sequence of calls produces: a constructed or imported election,
  and what \<^verbatim>\<open>addVoters\<close>, \<^verbatim>\<open>uploadVoters\<close>, \<^verbatim>\<open>start\<close>, \<^verbatim>\<open>submitVote\<close>, \<^verbatim>\<open>end\<close> and
  \<^verbatim>\<open>tallyResults\<close> leave when they return. Each call runs to its end before the next
  one begins.
\<close>

inductive reachable ::
  "'p::ab_group_add curve \<Rightarrow> platform \<Rightarrow> 'pr semaphore \<Rightarrow> 'pr Election \<Rightarrow> bool"
  for cv :: "'p::ab_group_add curve" and pf :: platform and sem :: "'pr semaphore" where
  constructed: "reachable cv pf sem (newElection cv pf now config)"
| imported: "Election_import cv pf now state password = Inr e \<Longrightarrow> reachable cv pf sem e"
| addedVoters:
    "reachable cv pf sem e \<Longrightarrow> Election_addVoters pf sem emails e = (vs, e') \<Longrightarrow>
     reachable cv pf sem e'"
| uploadedVoters:
    "reachable cv pf sem e \<Longrightarrow> uploadVoters pf sem csv e = Inr (res, e') \<Longrightarrow>
     reachable cv pf sem e'"
| started: "reachable cv pf sem e \<Longrightarrow> start now e = Inr e' \<Longrightarrow> reachable cv pf sem e'"
| submitted:
    "reachable cv pf sem e \<Longrightarrow> submitVote sem vote e = (res, e') \<Longrightarrow> reachable cv pf sem e'"
| ended: "reachable cv pf sem e \<Longrightarrow> end_election now e = Inr e' \<Longrightarrow> reachable cv pf sem e'"
| tallied:
    "reachable cv pf sem e \<Longrightarrow> tallyResults cv pf password e = (res, e') \<Longrightarrow>
     reachable cv pf sem e'"



section \<open>Notions used in the statements\<close>

text \<open>
  A ciphertext holds the message \<open>M\<close> for the private scalar \<open>xv\<close> when it is
  \<open>(R\<cdot>G, (R\<cdot>xv)\<cdot>G + M\<cdot>G)\<close> for some \<open>R\<close>.
\<close>

definition holds ::
  "'p::ab_group_add curve \<Rightarrow> int \<Rightarrow> ElGamalCiphertext \<Rightarrow> nat \<Rightarrow> bool" where
  "holds cv xv ct M \<longleftrightarrow>
     (\<exists>R. c1 ct = toHex cv (scalar R (BASE cv)) \<and>
          c2 ct = toHex cv (scalar (R * nat xv) (BASE cv) + scalar M (BASE cv)))"




text \<open>The positions of a vote vector whose ciphertext decrypts to 1.\<close>

definition onePositions ::
  "'p::ab_group_add curve \<Rightarrow> ElGamalKeyPair \<Rightarrow> 'pr Vote \<Rightarrow> nat list" where
  "onePositions cv kp vote =
     filter (\<lambda>k. decrypt cv kp (encryptedVotes (voteVector vote) ! k) = Inr 1)
       [0 ..< length (encryptedVotes (voteVector vote))]"

section \<open>An instance of the parameters\<close>

text \<open>
  The integers with generator 1 meet what is asked of the curve, with a point written
  in unary. The other parameters are instantiated as simply.
\<close>

definition toyHex :: "int \<Rightarrow> string" where
  "toyHex i =
     (if i < 0 then CHR ''-'' # replicate (nat (- i)) CHR ''1'' else replicate (nat i) CHR ''1'')"

definition toyUnhex :: "string \<Rightarrow> int" where
  "toyUnhex s =
     (case s of
        [] \<Rightarrow> 0
      | c # r \<Rightarrow> if c = CHR ''-'' then - int (length r) else int (length s))"

definition toyCurve :: "int curve" where
  "toyCurve =
     \<lparr>BASE = 1, curve_n = 10007, multiply = (\<lambda>p k. p * k), toHex = toyHex, fromHex = toyUnhex\<rparr>"

text \<open>Lowercasing and trimming of ASCII text.\<close>

definition asciiLower :: "string \<Rightarrow> string" where
  "asciiLower s =
     map (\<lambda>c. let n = (of_char c :: nat) in if 65 \<le> n \<and> n \<le> 90 then char_of (n + 32) else c) s"

definition asciiSpace :: "char \<Rightarrow> bool" where
  "asciiSpace c = ((of_char c :: nat) \<in> {9, 10, 11, 12, 13, 32})"

definition asciiTrim :: "string \<Rightarrow> string" where
  "asciiTrim s = rev (dropWhile asciiSpace (rev (dropWhile asciiSpace s)))"

definition toyPlatform :: platform where
  "toyPlatform =
     \<lparr>sha256Hex = (\<lambda>s. s),
      natOfHex = length,
      toLowerCase = asciiLower,
      trim = asciiTrim,
      bigIntToString = toyHex,
      bigIntOfString = (\<lambda>s. Some (toyUnhex s)),
      toISOString = toyHex,
      addHours = (\<lambda>d k. d + k * 3600000),
      stringifyVoteVector = (\<lambda>vv. []),
      stringifyPublicKey = pub_h,
      merkleRoot = (\<lambda>lv els. concat els)\<rparr>"

text \<open>A proof system whose proofs are the identities that made them.\<close>

definition toySemaphore :: "string semaphore" where
  "toySemaphore =
     \<lparr>identityCommitment = (\<lambda>secret. int (length secret)),
      generateProof = (\<lambda>idn grp message scope. idn),
      verifyProof = (\<lambda>prf. True),
      proofNullifier = (\<lambda>prf. int (length prf)),
      groupRoot = sum_list\<rparr>"

text \<open>
  An election with two candidates and one voter, as a draft, started and ended, and one
  ballot for it.
\<close>

definition toyConfig :: ElectionConfig where
  "toyConfig =
     \<lparr>cfg_id = ''e1'', cfg_title = ''Board'', cfg_description = None,
      cfg_candidates =
        [\<lparr>cand_id = ''alice'', cand_name = ''Alice'', cand_description = None\<rparr>,
         \<lparr>cand_id = ''bob'', cand_name = ''Bob'', cand_description = None\<rparr>],
      trusteePassword = ''secret''\<rparr>"

definition toyDraft :: "string Election" where
  "toyDraft =
     snd (Election_addVoters toyPlatform toySemaphore [''a@x'']
            (newElection toyCurve toyPlatform 0 toyConfig))"

definition toyActive :: "string Election" where
  "toyActive = toyDraft\<lparr>status := Active, startedAt := Some 1\<rparr>"

definition toyEnded :: "string Election" where
  "toyEnded = toyActive\<lparr>status := Ended, endedAt := Some 3\<rparr>"

definition toyVote :: "string Vote" where
  "toyVote =
     \<lparr>voteVector =
        \<lparr>encryptedVotes = [\<lparr>c1 = ''1'', c2 = ''1111111''\<rparr>, \<lparr>c1 = ''11'', c2 = ''111111111111''\<rparr>],
         candidateOrder = [''alice'', ''bob'']\<rparr>,
      vote_proof = ''a@x:e1'',
      nullifier = ''1111111'',
      receipt =
        \<lparr>receiptId = ''r'', receipt_electionId = ''e1'', voteVectorHash = ''0'',
         receipt_timestamp = 2, receipt_nullifier = ''1111111''\<rparr>,
      timestamp = 2\<rparr>"




text \<open>The trustee key pair of the scenario, with private scalar 6.\<close>

definition toyKeyPair :: ElGamalKeyPair where
  "toyKeyPair = newKeyPair toyCurve \<lparr>priv_x = 6\<rparr>"

section \<open>ElGamal: decryption inverts encryption and aggregation adds messages\<close>

lemma scalar_add: "scalar (a + b) p = scalar a p + scalar b p"
  by (induction a) (simp_all add: algebra_simps)

lemma scalar_scalar: "scalar a (scalar b p) = scalar (a * b) p"
  by (induction a) (simp_all add: scalar_add)

lemma fold_upd_other:
  "k \<notin> f ` set xs \<Longrightarrow> fold (\<lambda>i m. m(f i \<mapsto> g i)) xs m0 k = m0 k"
  by (induction xs arbitrary: m0) auto

lemma fold_upd_hit:
  "j \<in> set xs \<Longrightarrow> inj_on f (set xs) \<Longrightarrow> fold (\<lambda>i m. m(f i \<mapsto> g i)) xs m0 (f j) = Some (g j)"
proof (induction xs arbitrary: m0)
  case Nil
  then show ?case by simp
next
  case (Cons a xs)
  show ?case
  proof (cases "j \<in> set xs")
    case True
    with Cons show ?thesis by (simp add: inj_on_def)
  next
    case False
    with Cons.prems have ja: "j = a" by simp
    from Cons.prems False ja have "f j \<notin> f ` set xs"
      by (auto simp: inj_on_def)
    then have "fold (\<lambda>i m. m(f i \<mapsto> g i)) xs (m0(f a \<mapsto> g a)) (f j) = (m0(f a \<mapsto> g a)) (f j)"
      by (rule fold_upd_other)
    then have "fold (\<lambda>i m. m(f i \<mapsto> g i)) xs (m0(f a \<mapsto> g a)) (f j) = Some (g j)"
      using ja by simp
    then show ?thesis by (simp del: fun_upd_apply)
  qed
qed

lemma curve_ok_multiply:
  "curve_ok cv \<Longrightarrow> 1 \<le> k \<Longrightarrow> k < curve_n cv \<Longrightarrow> multiply cv p k = scalar (nat k) p"
  by (simp add: curve_ok_def)

lemma curve_ok_hex: "curve_ok cv \<Longrightarrow> fromHex cv (toHex cv p) = p"
  by (simp add: curve_ok_def)

lemma curve_ok_hex_inj: "curve_ok cv \<Longrightarrow> toHex cv p = toHex cv q \<Longrightarrow> p = q"
  by (metis curve_ok_hex)

lemma curve_ok_distinct:
  "curve_ok cv \<Longrightarrow> i \<le> MAX_VOTES \<Longrightarrow> j \<le> MAX_VOTES \<Longrightarrow>
   scalar i (BASE cv) = scalar j (BASE cv) \<Longrightarrow> i = j"
  unfolding curve_ok_def by blast

lemma curve_ok_n: "curve_ok cv \<Longrightarrow> int MAX_VOTES < curve_n cv"
  by (simp add: curve_ok_def)

lemma dlog_key:
  assumes ok: "curve_ok cv" and i: "1 \<le> i" "i \<le> int MAX_VOTES"
  shows "toHex cv (multiply cv (BASE cv) i) = toHex cv (scalar (nat i) (BASE cv))"
  using curve_ok_multiply[OF ok i(1)] curve_ok_n[OF ok] i by simp

lemma dlog_lookup:
  assumes ok: "curve_ok cv" and m: "m \<le> MAX_VOTES"
  shows "initDLogCache cv (toHex cv (scalar m (BASE cv))) = Some (int m)"
proof -
  let ?f = "\<lambda>i. toHex cv (multiply cv (BASE cv) i)"
  let ?xs = "[1 .. int MAX_VOTES]"
  have inj: "inj_on ?f (set ?xs)"
  proof (rule inj_onI)
    fix a b assume a: "a \<in> set ?xs" and b: "b \<in> set ?xs" and e: "?f a = ?f b"
    from a b have ab: "1 \<le> a" "a \<le> int MAX_VOTES" "1 \<le> b" "b \<le> int MAX_VOTES" by auto
    from e have "toHex cv (scalar (nat a) (BASE cv)) = toHex cv (scalar (nat b) (BASE cv))"
      using dlog_key[OF ok ab(1,2)] dlog_key[OF ok ab(3,4)] by simp
    then have "scalar (nat a) (BASE cv) = scalar (nat b) (BASE cv)"
      by (rule curve_ok_hex_inj[OF ok])
    then have "nat a = nat b"
      using curve_ok_distinct[OF ok, of "nat a" "nat b"] ab by (simp add: nat_le_iff)
    with ab show "a = b" by simp
  qed
  show ?thesis
  proof (cases "m = 0")
    case True
    have "toHex cv 0 \<notin> ?f ` set ?xs"
    proof
      assume "toHex cv 0 \<in> ?f ` set ?xs"
      then obtain a where a: "1 \<le> a" "a \<le> int MAX_VOTES" and e: "toHex cv 0 = ?f a" by auto
      from e have "toHex cv (scalar 0 (BASE cv)) = toHex cv (scalar (nat a) (BASE cv))"
        using dlog_key[OF ok a] by simp
      then have "scalar 0 (BASE cv) = scalar (nat a) (BASE cv)"
        by (rule curve_ok_hex_inj[OF ok])
      then have "0 = nat a"
        using curve_ok_distinct[OF ok, of 0 "nat a"] a by (simp add: nat_le_iff)
      with a show False by simp
    qed
    then show ?thesis
      unfolding initDLogCache_def using True by (simp add: fold_upd_other)
  next
    case False
    then have mem: "int m \<in> set ?xs" using m by simp
    have "fold (\<lambda>i mp. mp(?f i \<mapsto> i)) ?xs [toHex cv 0 \<mapsto> 0] (?f (int m)) = Some (int m)"
      by (rule fold_upd_hit[OF mem inj])
    moreover have "?f (int m) = toHex cv (scalar m (BASE cv))"
      using dlog_key[OF ok, of "int m"] False m by simp
    ultimately show ?thesis unfolding initDLogCache_def by simp
  qed
qed

lemma decrypt_holds:
  assumes ok: "curve_ok cv" and x: "1 \<le> priv_x (privateKey kp)" "priv_x (privateKey kp) < curve_n cv"
    and h: "holds cv (priv_x (privateKey kp)) ct M" and M: "M \<le> MAX_VOTES"
  shows "decrypt cv kp ct = Inr (int M)"
proof -
  from h obtain R where c: "c1 ct = toHex cv (scalar R (BASE cv))"
    "c2 ct = toHex cv (scalar (R * nat (priv_x (privateKey kp))) (BASE cv) + scalar M (BASE cv))"
    unfolding holds_def by blast
  have "multiply cv (scalar R (BASE cv)) (priv_x (privateKey kp))
        = scalar (nat (priv_x (privateKey kp))) (scalar R (BASE cv))"
    by (rule curve_ok_multiply[OF ok x])
  then show ?thesis
    unfolding decrypt_def
    by (simp add: c curve_ok_hex[OF ok] scalar_scalar mult.commute dlog_lookup[OF ok M])
qed

lemma encrypt_holds:
  assumes ok: "curve_ok cv" and x: "1 \<le> xv" "xv < curve_n cv"
    and m: "0 \<le> m" "m \<le> int MAX_VOTES" and r: "int rnd mod curve_n cv \<noteq> 0"
  shows "\<exists>ct. encrypt cv m (publicKey (newKeyPair cv \<lparr>priv_x = xv\<rparr>)) rnd = Inr ct \<and> holds cv xv ct (nat m)"
proof -
  let ?r = "int rnd mod curve_n cv"
  have n: "0 < curve_n cv" using curve_ok_n[OF ok] by simp
  have r0: "0 \<le> ?r" using n by simp
  have r1: "1 \<le> ?r" using r r0 by linarith
  have r2: "?r < curve_n cv" using n by simp
  have mm: "(if m = 0 then 0 else multiply cv (BASE cv) m) = scalar (nat m) (BASE cv)"
    using curve_ok_multiply[OF ok, of m] m curve_ok_n[OF ok] by auto
  show ?thesis
    unfolding encrypt_def holds_def newKeyPair_def Let_def
    using m mm
    apply (simp add: curve_ok_hex[OF ok] curve_ok_multiply[OF ok r1 r2] curve_ok_multiply[OF ok x] scalar_scalar)
    apply (rule exI[of _ "nat ?r"])
    apply simp
    done
qed

lemma add_holds:
  assumes ok: "curve_ok cv" and a: "holds cv xv a Ma" and b: "holds cv xv b Mb"
  shows "holds cv xv (add cv a b) (Ma + Mb)"
proof -
  from a obtain Ra where ca: "c1 a = toHex cv (scalar Ra (BASE cv))"
    "c2 a = toHex cv (scalar (Ra * nat xv) (BASE cv) + scalar Ma (BASE cv))"
    unfolding holds_def by blast
  from b obtain Rb where cb: "c1 b = toHex cv (scalar Rb (BASE cv))"
    "c2 b = toHex cv (scalar (Rb * nat xv) (BASE cv) + scalar Mb (BASE cv))"
    unfolding holds_def by blast
  show ?thesis
    unfolding holds_def add_def Let_def
    by (rule exI[of _ "Ra + Rb"])
       (simp add: ca cb curve_ok_hex[OF ok] scalar_add add_mult_distrib algebra_simps)
qed

lemma foldl_add_holds:
  assumes ok: "curve_ok cv"
  shows "holds cv xv acc Macc \<Longrightarrow> list_all2 (holds cv xv) cts Ms \<Longrightarrow>
         holds cv xv (foldl (add cv) acc cts) (Macc + sum_list Ms)"
proof (induction cts arbitrary: acc Macc Ms)
  case Nil
  then show ?case by simp
next
  case (Cons ct cts)
  from Cons.prems(2) obtain M Ms' where Ms: "Ms = M # Ms'" and h: "holds cv xv ct M"
    and rest: "list_all2 (holds cv xv) cts Ms'"
    by (auto simp: list_all2_Cons1)
  have "holds cv xv (add cv acc ct) (Macc + M)"
    by (rule add_holds[OF ok Cons.prems(1) h])
  from Cons.IH[OF this rest] show ?case by (simp add: Ms add.assoc)
qed

lemma aggregate_holds:
  assumes ok: "curve_ok cv" and ne: "cts \<noteq> []" and hs: "list_all2 (holds cv xv) cts Ms"
  shows "holds cv xv (foldl (add cv) (hd cts) (tl cts)) (sum_list Ms)"
proof -
  from ne obtain ct rest where cts: "cts = ct # rest" by (cases cts) auto
  with hs obtain M Ms' where Ms: "Ms = M # Ms'" and h: "holds cv xv ct M"
    and rest: "list_all2 (holds cv xv) rest Ms'"
    by (auto simp: list_all2_Cons1)
  from foldl_add_holds[OF ok h rest] show ?thesis by (simp add: cts Ms)
qed

text \<open>
  Claim C3. For a key pair built from a private scalar \<open>1 \<le> sk < n\<close>, a message
  \<open>0 \<le> m \<le> MAX_VOTES\<close> and encryption randomness that is not a multiple of \<open>n\<close>
  (the scalars the curve accepts), encryption succeeds and decrypting the ciphertext with
  the same key pair returns \<open>m\<close>.
\<close>

theorem decrypt_encrypt_roundtrip:
  assumes "curve_ok cv"
    and "1 \<le> sk" and "sk < curve_n cv"
    and "0 \<le> m" and "m \<le> int MAX_VOTES"
    and "int rnd mod curve_n cv \<noteq> 0"
  shows "\<exists>ct. encrypt cv m (publicKey (newKeyPair cv \<lparr>priv_x = sk\<rparr>)) rnd = Inr ct \<and>
              decrypt cv (newKeyPair cv \<lparr>priv_x = sk\<rparr>) ct = Inr m"
proof -
  from encrypt_holds[OF assms] obtain ct
    where e: "encrypt cv m (publicKey (newKeyPair cv \<lparr>priv_x = sk\<rparr>)) rnd = Inr ct"
      and h: "holds cv sk ct (nat m)"
    by blast
  have "decrypt cv (newKeyPair cv \<lparr>priv_x = sk\<rparr>) ct = Inr (int (nat m))"
    by (rule decrypt_holds[OF assms(1)]) (use assms h in \<open>simp_all add: newKeyPair_def nat_le_iff\<close>)
  with e assms(4) show ?thesis by simp
qed

text \<open>The integers with generator 1 meet what is asked of the curve.\<close>

lemma scalar_int: "scalar k (p::int) = int k * p"
  by (induction k) (simp_all add: algebra_simps)

lemma toyUnhex_toyHex: "toyUnhex (toyHex i) = i"
proof (cases "i < 0")
  case True
  then show ?thesis by (simp add: toyHex_def toyUnhex_def)
next
  case False
  then show ?thesis
    by (cases "nat i") (auto simp: toyHex_def toyUnhex_def)
qed

lemma curve_ok_toyCurve: "curve_ok toyCurve"
  unfolding curve_ok_def
  by (simp add: toyCurve_def MAX_VOTES_def scalar_int toyUnhex_toyHex)

theorem decrypt_encrypt_roundtrip_witness:
  "curve_ok toyCurve \<and> (1::int) \<le> 3 \<and> 3 < curve_n toyCurve \<and> (0::int) \<le> 7 \<and> 7 \<le> int MAX_VOTES \<and>
   int 5 mod curve_n toyCurve \<noteq> 0 \<and>
   (\<exists>ct. encrypt toyCurve 7 (publicKey (newKeyPair toyCurve \<lparr>priv_x = 3\<rparr>)) 5 = Inr ct \<and>
         decrypt toyCurve (newKeyPair toyCurve \<lparr>priv_x = 3\<rparr>) ct = Inr 7)"
proof -
  have h: "(1::int) \<le> 3" "3 < curve_n toyCurve" "(0::int) \<le> 7" "7 \<le> int MAX_VOTES"
    "int 5 mod curve_n toyCurve \<noteq> 0"
    by (simp_all add: toyCurve_def MAX_VOTES_def)
  from decrypt_encrypt_roundtrip[OF curve_ok_toyCurve h] curve_ok_toyCurve h
  show ?thesis by blast
qed

lemma member_le_sum_list_int:
  "\<forall>v \<in> set xs. (0::int) \<le> v \<Longrightarrow> v \<in> set xs \<Longrightarrow> v \<le> sum_list xs"
proof (induction xs)
  case Nil
  then show ?case by simp
next
  case (Cons a xs)
  then have "0 \<le> sum_list xs" by (simp add: sum_list_nonneg)
  with Cons show ?case by auto
qed

lemma sum_list_nat_nonneg:
  "\<forall>v \<in> set xs. (0::int) \<le> v \<Longrightarrow> sum_list (map nat xs) = nat (sum_list xs)"
proof (induction xs)
  case Nil
  then show ?case by simp
next
  case (Cons a xs)
  then have "0 \<le> sum_list xs" by (simp add: sum_list_nonneg)
  with Cons show ?case by (simp add: nat_add_distrib)
qed

lemma mapE_encrypt_holds:
  assumes ok: "curve_ok cv" and x: "1 \<le> sk" "sk < curve_n cv"
  shows "\<forall>(m, rnd) \<in> set mrs. 0 \<le> m \<and> m \<le> int MAX_VOTES \<and> int rnd mod curve_n cv \<noteq> 0 \<Longrightarrow>
         \<exists>cts. mapE (\<lambda>(m, rnd). encrypt cv m (publicKey (newKeyPair cv \<lparr>priv_x = sk\<rparr>)) rnd) mrs = Inr cts \<and>
               list_all2 (holds cv sk) cts (map (\<lambda>(m, rnd). nat m) mrs)"
proof (induction mrs)
  case Nil
  then show ?case by simp
next
  case (Cons mr mrs)
  obtain m rnd where mr: "mr = (m, rnd)" by (cases mr)
  from Cons.prems mr have m: "0 \<le> m" "m \<le> int MAX_VOTES" "int rnd mod curve_n cv \<noteq> 0"
    by auto
  from encrypt_holds[OF ok x m] obtain ct
    where e: "encrypt cv m (publicKey (newKeyPair cv \<lparr>priv_x = sk\<rparr>)) rnd = Inr ct"
      and h: "holds cv sk ct (nat m)"
    by blast
  from Cons.IH Cons.prems obtain cts
    where es: "mapE (\<lambda>(m, rnd). encrypt cv m (publicKey (newKeyPair cv \<lparr>priv_x = sk\<rparr>)) rnd) mrs = Inr cts"
      and hs: "list_all2 (holds cv sk) cts (map (\<lambda>(m, rnd). nat m) mrs)"
    by auto
  show ?case
    by (rule exI[of _ "ct # cts"]) (simp add: mr e es h hs)
qed

text \<open>
  Claim C2. Encrypt the messages \<open>m\<^sub>1, \<dots>, m\<^sub>k\<close> (\<open>k \<ge> 1\<close>, none negative, their sum at
  most \<open>MAX_VOTES\<close>) under one public key. Then \<^verbatim>\<open>aggregate\<close> succeeds, its result is the
  left fold of \<open>add\<close> over the ciphertexts starting from the first, decrypting it with
  the matching private key returns \<open>m\<^sub>1 + \<dots> + m\<^sub>k\<close>, and \<open>add\<close> adds the points
  component by component.
\<close>

theorem aggregate_decrypts_to_sum:
  assumes ok: "curve_ok cv"
    and sk: "1 \<le> sk" "sk < curve_n cv"
    and ne: "mrs \<noteq> []"
    and ms: "\<forall>(m, rnd) \<in> set mrs. 0 \<le> m \<and> int rnd mod curve_n cv \<noteq> 0"
    and total: "sum_list (map fst mrs) \<le> int MAX_VOTES"
  shows "\<exists>cts. mapE (\<lambda>(m, rnd). encrypt cv m (publicKey (newKeyPair cv \<lparr>priv_x = sk\<rparr>)) rnd) mrs = Inr cts \<and>
               aggregate cv cts = Inr (foldl (add cv) (hd cts) (tl cts)) \<and>
               decrypt cv (newKeyPair cv \<lparr>priv_x = sk\<rparr>) (foldl (add cv) (hd cts) (tl cts))
                 = Inr (sum_list (map fst mrs)) \<and>
               (\<forall>a b. add cv a b =
                  \<lparr>c1 = toHex cv (fromHex cv (c1 a) + fromHex cv (c1 b)),
                   c2 = toHex cv (fromHex cv (c2 a) + fromHex cv (c2 b))\<rparr>)"
proof -
  have nonneg: "\<forall>v \<in> set (map fst mrs). 0 \<le> v" using ms by auto
  have "\<forall>(m, rnd) \<in> set mrs. 0 \<le> m \<and> m \<le> int MAX_VOTES \<and> int rnd mod curve_n cv \<noteq> 0"
  proof (clarify, intro conjI)
    fix m rnd assume mem: "(m, rnd) \<in> set mrs"
    with ms show "0 \<le> m" "int rnd mod curve_n cv \<noteq> 0" by auto
    from mem have "m \<in> set (map fst mrs)" by force
    from member_le_sum_list_int[OF nonneg this] total show "m \<le> int MAX_VOTES" by simp
  qed
  from mapE_encrypt_holds[OF ok sk this] obtain cts
    where es: "mapE (\<lambda>(m, rnd). encrypt cv m (publicKey (newKeyPair cv \<lparr>priv_x = sk\<rparr>)) rnd) mrs = Inr cts"
      and hs: "list_all2 (holds cv sk) cts (map (\<lambda>(m, rnd). nat m) mrs)"
    by blast
  from hs have "length cts = length mrs" by (auto dest: list_all2_lengthD)
  with ne have cne: "cts \<noteq> []" by auto
  have agg: "aggregate cv cts = Inr (foldl (add cv) (hd cts) (tl cts))"
    using cne by (cases cts) (simp_all add: aggregate_def)
  have eqm: "map (\<lambda>(m, rnd). nat m) mrs = map nat (map fst mrs)"
    by (simp add: case_prod_unfold)
  have sum: "sum_list (map (\<lambda>(m, rnd). nat m) mrs) = nat (sum_list (map fst mrs))"
    unfolding eqm by (rule sum_list_nat_nonneg[OF nonneg])
  have h: "holds cv sk (foldl (add cv) (hd cts) (tl cts)) (nat (sum_list (map fst mrs)))"
    using aggregate_holds[OF ok cne hs] sum by simp
  have s0: "0 \<le> sum_list (map fst mrs)" by (rule sum_list_nonneg) (use nonneg in blast)
  have "decrypt cv (newKeyPair cv \<lparr>priv_x = sk\<rparr>) (foldl (add cv) (hd cts) (tl cts))
        = Inr (int (nat (sum_list (map fst mrs))))"
    by (rule decrypt_holds[OF ok]) (use sk h total in \<open>simp_all add: newKeyPair_def nat_le_iff\<close>)
  with s0 have dec: "decrypt cv (newKeyPair cv \<lparr>priv_x = sk\<rparr>) (foldl (add cv) (hd cts) (tl cts))
        = Inr (sum_list (map fst mrs))" by simp
  have comp: "\<forall>a b. add cv a b =
                  \<lparr>c1 = toHex cv (fromHex cv (c1 a) + fromHex cv (c1 b)),
                   c2 = toHex cv (fromHex cv (c2 a) + fromHex cv (c2 b))\<rparr>"
    by (simp add: add_def)
  from es agg dec comp show ?thesis by blast
qed

theorem aggregate_decrypts_to_sum_witness:
  "curve_ok toyCurve \<and> (1::int) \<le> 3 \<and> 3 < curve_n toyCurve \<and> [(1, 5), (0, 6), (1::int, 7::nat)] \<noteq> [] \<and>
   list_all (\<lambda>(m, rnd). 0 \<le> m \<and> int rnd mod curve_n toyCurve \<noteq> 0) [(1, 5), (0, 6), (1::int, 7::nat)] \<and>
   sum_list (map fst [(1, 5), (0, 6), (1::int, 7::nat)]) \<le> int MAX_VOTES \<and>
   (\<exists>cts. mapE (\<lambda>(m, rnd). encrypt toyCurve m (publicKey (newKeyPair toyCurve \<lparr>priv_x = 3\<rparr>)) rnd)
             [(1, 5), (0, 6), (1, 7)] = Inr cts \<and>
          decrypt toyCurve (newKeyPair toyCurve \<lparr>priv_x = 3\<rparr>) (foldl (add toyCurve) (hd cts) (tl cts))
            = Inr 2)"
proof -
  have h: "(1::int) \<le> 3" "3 < curve_n toyCurve" "[(1, 5), (0, 6), (1::int, 7::nat)] \<noteq> []"
    "\<forall>(m, rnd) \<in> set [(1, 5), (0, 6), (1::int, 7::nat)]. 0 \<le> m \<and> int rnd mod curve_n toyCurve \<noteq> 0"
    "sum_list (map fst [(1, 5), (0, 6), (1::int, 7::nat)]) \<le> int MAX_VOTES"
    by (simp_all add: toyCurve_def MAX_VOTES_def)
  have l: "list_all (\<lambda>(m, rnd). 0 \<le> m \<and> int rnd mod curve_n toyCurve \<noteq> 0) [(1, 5), (0, 6), (1::int, 7::nat)]"
    by (simp add: toyCurve_def)
  from aggregate_decrypts_to_sum[OF curve_ok_toyCurve h] curve_ok_toyCurve h l
  show ?thesis by auto
qed

section \<open>Election: ballot intake\<close>

lemma every_index:
  "list_all (\<lambda>(val, i). P val i) (zip a [0 ..< length a]) \<longleftrightarrow> (\<forall>i < length a. P (a ! i) i)"
  by (simp add: list_all_length)

lemma arraysEqual_iff: "arraysEqual a b \<longleftrightarrow> a = b"
  unfolding arraysEqual_def every_index
  by (rule list_eq_iff_nth_eq[symmetric])

text \<open>
  Claim C1. \<^verbatim>\<open>submitVote\<close> applies its checks in this order: the election is not active;
  the nullifier of the ballot is already used; the proof does not verify; the candidate
  order of the ballot is not the list of the election's candidate ids. The first check that
  fires gives its message with \<open>success = False\<close> and leaves the election as it was. When
  none fires, the ballot is appended to the votes, its nullifier is added to the used
  nullifiers, and the result is \<open>success = True\<close> with no message.
\<close>

theorem submitVote_checks_in_order:
  "submitVote sem vote e =
     (if status e \<noteq> Active
      then (\<lparr>success = False, error_message = Some ''Election is not active''\<rparr>, e)
      else if nullifier vote \<in> set (usedNullifiers e)
      then (\<lparr>success = False, error_message = Some ''Voter has already voted''\<rparr>, e)
      else if verifyProof sem (vote_proof vote) = False
      then (\<lparr>success = False, error_message = Some ''Invalid vote proof''\<rparr>, e)
      else if candidateOrder (voteVector vote) \<noteq> map cand_id (candidates e)
      then (\<lparr>success = False, error_message = Some ''Invalid candidate order in vote vector''\<rparr>, e)
      else (\<lparr>success = True, error_message = None\<rparr>,
            e\<lparr>votes := votes e @ [vote],
              usedNullifiers := usedNullifiers e @ [nullifier vote]\<rparr>))"
  by (simp add: submitVote_def Set_has_def Set_add_def verify_def getCandidateOrder_def
      arraysEqual_iff)

theorem submitVote_checks_in_order_witness:
  "submitVote toySemaphore toyVote toyDraft
     = (\<lparr>success = False, error_message = Some ''Election is not active''\<rparr>, toyDraft) \<and>
   submitVote toySemaphore toyVote toyActive
     = (\<lparr>success = True, error_message = None\<rparr>,
        toyActive\<lparr>votes := [toyVote], usedNullifiers := [''1111111'']\<rparr>) \<and>
   submitVote toySemaphore toyVote (toyActive\<lparr>votes := [toyVote], usedNullifiers := [''1111111'']\<rparr>)
     = (\<lparr>success = False, error_message = Some ''Voter has already voted''\<rparr>,
        toyActive\<lparr>votes := [toyVote], usedNullifiers := [''1111111'']\<rparr>)"
proof -
  have d: "status toyDraft = Draft" "status toyActive = Active"
    "usedNullifiers toyActive = []" "votes toyActive = []"
    "map cand_id (candidates toyActive) = [''alice'', ''bob'']"
    by (simp_all add: toyActive_def toyDraft_def Election_addVoters_def newElection_def
        toyConfig_def Let_def)
  have v: "nullifier toyVote = ''1111111''" "candidateOrder (voteVector toyVote) = [''alice'', ''bob'']"
    "verifyProof toySemaphore (vote_proof toyVote)"
    by (simp_all add: toyVote_def toySemaphore_def)
  from submitVote_checks_in_order[of toySemaphore toyVote toyDraft]
       submitVote_checks_in_order[of toySemaphore toyVote toyActive]
       submitVote_checks_in_order[of toySemaphore toyVote
         "toyActive\<lparr>votes := [toyVote], usedNullifiers := [''1111111'']\<rparr>"]
  show ?thesis by (simp add: d v)
qed

section \<open>Voter tokens\<close>

text \<open>
  Claim C8. For a voter that holds a token \<open>t\<close>, \<^verbatim>\<open>verifyToken(candidate)\<close> is true exactly
  when the SHA-256 hex digest of the candidate is the stored hash and the token is not marked
  used. Changing the expiry time of the token does not change the result, and
  \<^verbatim>\<open>isTokenExpired\<close> reports whether the current time is past the expiry time.
\<close>

theorem verifyToken_iff:
  assumes "voter_token v = Some t"
  shows "(verifyToken pf v candidate \<longleftrightarrow> sha256Hex pf candidate = token_hash t \<and> \<not> used t) \<and>
         verifyToken pf (v\<lparr>voter_token := Some (t\<lparr>expiresAt := d\<rparr>)\<rparr>) candidate
           = verifyToken pf v candidate \<and>
         (isTokenExpired now v \<longleftrightarrow> now > expiresAt t)"
  using assms by (simp add: verifyToken_def isTokenExpired_def)

text \<open>The token that \<^verbatim>\<open>generateToken\<close> stores.\<close>

lemma generateToken_token:
  "voter_token (snd (generateToken pf randomPart now expiryHours v)) =
     Some \<lparr>token = voter_id v @ '':'' @ randomPart,
           token_hash = sha256Hex pf (voter_id v @ '':'' @ randomPart),
           expiresAt = addHours pf now expiryHours, used = False\<rparr>"
  by (simp add: generateToken_def Let_def)

theorem verifyToken_iff_witness:
  "voter_token (snd (generateToken toyPlatform ''abcd'' 0 72 (newVoter toyPlatform toySemaphore ''a@x'' ''e1'')))
     = Some \<lparr>token = ''e1-a@x:abcd'', token_hash = ''e1-a@x:abcd'', expiresAt = 259200000, used = False\<rparr> \<and>
   verifyToken toyPlatform
     (snd (generateToken toyPlatform ''abcd'' 0 72 (newVoter toyPlatform toySemaphore ''a@x'' ''e1'')))
     ''e1-a@x:abcd'' \<and>
   \<not> verifyToken toyPlatform
     (snd (generateToken toyPlatform ''abcd'' 0 72 (newVoter toyPlatform toySemaphore ''a@x'' ''e1'')))
     ''e1-a@x:abce''"
proof -
  let ?v = "snd (generateToken toyPlatform ''abcd'' 0 72 (newVoter toyPlatform toySemaphore ''a@x'' ''e1''))"
  let ?t = "\<lparr>token = ''e1-a@x:abcd'', token_hash = ''e1-a@x:abcd'', expiresAt = 259200000, used = False\<rparr>"
  have h: "voter_token ?v = Some ?t"
    by (simp add: generateToken_def newVoter_def toyPlatform_def Let_def)
  from verifyToken_iff[OF h, of toyPlatform "''e1-a@x:abcd''"]
       verifyToken_iff[OF h, of toyPlatform "''e1-a@x:abce''"] h
  show ?thesis by (simp add: toyPlatform_def)
qed

section \<open>Key pairs from passwords\<close>



section \<open>Election: tally\<close>

lemma mapE_Inl: "mapE f xs = Inl er \<Longrightarrow> \<exists>a \<in> set xs. f a = Inl er"
  by (induction xs) (auto split: sum.splits)

lemma decryptTotals_Inl:
  "decryptTotals cv kp xs results = Inl er \<Longrightarrow> \<exists>ct. decrypt cv kp ct = Inl er"
  by (induction cv kp xs results rule: decryptTotals.induct) (auto split: sum.splits)

lemma decrypt_Inl:
  "decrypt cv kp ct = Inl er \<Longrightarrow>
   er \<noteq> Error ''Invalid trustee password'' \<and> er \<noteq> Error ''Cannot tally votes until election ends''"
  by (auto simp: decrypt_def Let_def split: option.splits)

lemma aggregate_Inl:
  "aggregate cv cts = Inl er \<Longrightarrow>
   er \<noteq> Error ''Invalid trustee password'' \<and> er \<noteq> Error ''Cannot tally votes until election ends''"
  by (auto simp: aggregate_def split: list.splits)

lemma getEncryptedVoteAt_Inl:
  "getEncryptedVoteAt vote pos = Inl er \<Longrightarrow>
   er \<noteq> Error ''Invalid trustee password'' \<and> er \<noteq> Error ''Cannot tally votes until election ends''"
  by (auto simp: getEncryptedVoteAt_def split: if_splits)

lemma votesAtPosition_Inl:
  assumes "(case mapE (\<lambda>vote. getEncryptedVoteAt vote pos) vs of
              Inl er \<Rightarrow> Inl er
            | Inr votesAtPosition \<Rightarrow> aggregate cv votesAtPosition) = Inl er"
  shows "er \<noteq> Error ''Invalid trustee password'' \<and> er \<noteq> Error ''Cannot tally votes until election ends''"
proof (cases "mapE (\<lambda>vote. getEncryptedVoteAt vote pos) vs")
  case (Inl er')
  with assms have "mapE (\<lambda>vote. getEncryptedVoteAt vote pos) vs = Inl er" by simp
  from mapE_Inl[OF this] obtain v where "v \<in> set vs" and "getEncryptedVoteAt v pos = Inl er"
    by blast
  then show ?thesis by (simp add: getEncryptedVoteAt_Inl)
next
  case (Inr cts)
  with assms have "aggregate cv cts = Inl er" by simp
  then show ?thesis by (rule aggregate_Inl)
qed

lemma tallyResults_snd: "snd (tallyResults cv pf password e) = e"
  by (simp add: tallyResults_def Let_def split: sum.splits)

lemma tallyResults_late_error:
  assumes st: "status e = Ended"
    and pk: "pub_h (publicKey (fromPassword cv pf password)) = pub_h (publicKey (keyPair e))"
    and er: "fst (tallyResults cv pf password e) = Inl er"
  shows "er \<noteq> Error ''Invalid trustee password'' \<and> er \<noteq> Error ''Cannot tally votes until election ends''"
proof (cases "length (votes e) = 0")
  case True
  with st pk er show ?thesis by (simp add: tallyResults_def Let_def)
next
  case False
  let ?agg = "mapE (\<lambda>pos.
                 case mapE (\<lambda>vote. getEncryptedVoteAt vote (int pos)) (votes e) of
                   Inl er \<Rightarrow> Inl er
                 | Inr votesAtPosition \<Rightarrow> aggregate cv votesAtPosition)
               [0 ..< length (map cand_id (candidates e))]"
  show ?thesis
  proof (cases ?agg)
    case (Inl er')
    with st pk er False have "er' = er" by (simp add: tallyResults_def Let_def)
    with Inl have "?agg = Inl er" by simp
    from mapE_Inl[OF this] obtain pos where
      "(case mapE (\<lambda>vote. getEncryptedVoteAt vote (int pos)) (votes e) of
          Inl er \<Rightarrow> Inl er
        | Inr votesAtPosition \<Rightarrow> aggregate cv votesAtPosition) = Inl er"
      by blast
    then show ?thesis by (rule votesAtPosition_Inl)
  next
    case (Inr aggs)
    with st pk er False
    have "decryptTotals cv (keyPair e) (zip (map cand_id (candidates e)) aggs) [] = Inl er"
      by (simp add: tallyResults_def Let_def)
    then obtain ct where "decrypt cv (keyPair e) ct = Inl er"
      by (auto dest: decryptTotals_Inl)
    then show ?thesis by (rule decrypt_Inl)
  qed
qed

text \<open>
  Claim C5. \<^verbatim>\<open>tallyResults\<close> fails with \<^verbatim>\<open>Cannot tally votes until election ends\<close> exactly
  when the status is not \<^verbatim>\<open>ended\<close>; it fails with \<^verbatim>\<open>Invalid trustee password\<close> exactly when
  the status is \<^verbatim>\<open>ended\<close> and the public key derived from the password differs from the
  stored one; and the election after the call is the election before it.
\<close>

theorem tallyResults_failures:
  "(fst (tallyResults cv pf password e) = Inl (Error ''Cannot tally votes until election ends''))
     = (status e \<noteq> Ended) \<and>
   (fst (tallyResults cv pf password e) = Inl (Error ''Invalid trustee password''))
     = (status e = Ended \<and>
        pub_h (publicKey (fromPassword cv pf password)) \<noteq> pub_h (publicKey (keyPair e))) \<and>
   snd (tallyResults cv pf password e) = e"
proof (cases "status e = Ended")
  case False
  then show ?thesis by (simp add: tallyResults_def)
next
  case True
  show ?thesis
  proof (cases "pub_h (publicKey (fromPassword cv pf password)) = pub_h (publicKey (keyPair e))")
    case False
    with True show ?thesis by (simp add: tallyResults_def Let_def)
  next
    case pk: True
    have "fst (tallyResults cv pf password e) \<noteq> Inl (Error ''Invalid trustee password'')"
      "fst (tallyResults cv pf password e) \<noteq> Inl (Error ''Cannot tally votes until election ends'')"
      using tallyResults_late_error[OF True pk] by blast+
    with True pk show ?thesis by (simp add: tallyResults_snd)
  qed
qed

theorem tallyResults_failures_witness:
  "fst (tallyResults toyCurve toyPlatform ''secret'' toyActive)
     = Inl (Error ''Cannot tally votes until election ends'') \<and>
   fst (tallyResults toyCurve toyPlatform ''wrong'' toyEnded) = Inl (Error ''Invalid trustee password'') \<and>
   fst (tallyResults toyCurve toyPlatform ''secret'' toyEnded) \<noteq> Inl (Error ''Invalid trustee password'') \<and>
   snd (tallyResults toyCurve toyPlatform ''wrong'' toyEnded) = toyEnded"
proof -
  have st: "status toyActive \<noteq> Ended" "status toyEnded = Ended"
    by (simp_all add: toyEnded_def toyActive_def)
  have k: "pub_h (publicKey (fromPassword toyCurve toyPlatform ''wrong'')) \<noteq> pub_h (publicKey (keyPair toyEnded))"
    "pub_h (publicKey (fromPassword toyCurve toyPlatform ''secret'')) = pub_h (publicKey (keyPair toyEnded))"
    by code_simp+
  from tallyResults_failures[of toyCurve toyPlatform "''secret''" toyActive]
       tallyResults_failures[of toyCurve toyPlatform "''wrong''" toyEnded]
       tallyResults_failures[of toyCurve toyPlatform "''secret''" toyEnded]
  show ?thesis using st k by simp
qed

section \<open>Election: ballots and used nullifiers\<close>

lemma enrol_keeps_ballots:
  "enrol pf sem emails (e, vs) = (e', vs') \<Longrightarrow>
   votes e' = votes e \<and> usedNullifiers e' = usedNullifiers e"
proof (induction emails arbitrary: e vs)
  case Nil
  then show ?case by simp
next
  case (Cons email emails)
  from Cons.prems Cons.IH show ?case by (fastforce simp: Let_def)
qed

lemma submitVote_keeps_invariant:
  assumes "length (votes e) = length (usedNullifiers e)" "distinct (usedNullifiers e)"
    and "submitVote sem vote e = (res, e')"
  shows "length (votes e') = length (usedNullifiers e') \<and> distinct (usedNullifiers e')"
  using assms
  by (auto simp: submitVote_def Set_has_def Set_add_def Let_def split: if_splits)

text \<open>
  Claim C10. In every election that a sequence of calls produces, the number of stored
  ballots is the number of used nullifiers, the used nullifiers are pairwise distinct, and
  \<^verbatim>\<open>getStats().totalVotes\<close> is the number of stored ballots, which are the ballots that
  \<^verbatim>\<open>tallyResults\<close> aggregates.
\<close>

theorem ballots_match_nullifiers:
  assumes "reachable cv pf sem e"
  shows "length (votes e) = length (usedNullifiers e) \<and> distinct (usedNullifiers e) \<and>
         totalVotes (getStats e) = length (votes e)"
proof -
  from assms have "length (votes e) = length (usedNullifiers e) \<and> distinct (usedNullifiers e)"
  proof (induction rule: reachable.induct)
    case (constructed now config)
    then show ?case by (simp add: newElection_def)
  next
    case (imported now state password e)
    then show ?case
      by (auto simp: Election_import_def newElection_def Let_def split: sum.splits)
  next
    case (addedVoters e emails vs e')
    then show ?case
      by (auto simp: Election_addVoters_def split: prod.splits dest: enrol_keeps_ballots)
  next
    case (uploadedVoters e csv res e')
    then show ?case
      by (auto simp: uploadVoters_def Let_def split: sum.splits prod.splits
          dest: enrol_keeps_ballots)
  next
    case (started e now e')
    then show ?case by (auto simp: start_def split: if_splits)
  next
    case (submitted e vote res e')
    then show ?case using submitVote_keeps_invariant by blast
  next
    case (ended e now e')
    then show ?case by (auto simp: end_election_def split: if_splits)
  next
    case (tallied e password res e')
    then show ?case using tallyResults_snd[of cv pf password e] by simp
  qed
  then show ?thesis by (simp add: getStats_def)
qed

theorem ballots_match_nullifiers_witness:
  "reachable toyCurve toyPlatform toySemaphore (snd (submitVote toySemaphore toyVote toyActive)) \<and>
   length (votes (snd (submitVote toySemaphore toyVote toyActive))) = 1 \<and>
   totalVotes (getStats (snd (submitVote toySemaphore toyVote toyActive))) = 1"
proof -
  let ?e0 = "newElection toyCurve toyPlatform 0 toyConfig :: string Election"
  let ?e3 = "snd (submitVote toySemaphore toyVote toyActive)"
  have r0: "reachable toyCurve toyPlatform toySemaphore ?e0"
    by (rule reachable.constructed)
  have r1: "reachable toyCurve toyPlatform toySemaphore toyDraft"
    unfolding toyDraft_def
    by (rule reachable.addedVoters[OF r0, of "[''a@x'']"
          "fst (Election_addVoters toyPlatform toySemaphore [''a@x''] ?e0)"]) simp
  have s: "start 1 toyDraft = Inr toyActive"
    by (simp add: start_def toyActive_def toyDraft_def Election_addVoters_def newElection_def Let_def)
  have r2: "reachable toyCurve toyPlatform toySemaphore toyActive"
    by (rule reachable.started[OF r1 s])
  have r3: "reachable toyCurve toyPlatform toySemaphore ?e3"
    by (rule reachable.submitted[OF r2, of toyVote "fst (submitVote toySemaphore toyVote toyActive)"])
       simp
  have n: "length (usedNullifiers ?e3) = 1"
    by (simp add: submitVote_def Set_has_def Set_add_def verify_def getCandidateOrder_def
        arraysEqual_iff toySemaphore_def toyVote_def toyActive_def toyDraft_def toyConfig_def
        Election_addVoters_def newElection_def Let_def)
  from ballots_match_nullifiers[OF r3] n r3 show ?thesis by simp
qed

section \<open>Eligibility tree: depth and size\<close>




lemma calculateDepth_capacity: "n \<le> 2 ^ calculateDepth n"
  by (simp add: calculateDepth_def le_two_power_ceillog2)


lemma rebuildTree_total: "\<exists>t'. rebuildTree t = Inr t'"
  using calculateDepth_capacity[of "length (voterData t)"]
  by (simp add: rebuildTree_def newMerkleTree_def Let_def)




















lemma throwing_call_keeps_tree:
  "addVoter pf email t = (Inl er, t') \<Longrightarrow> tree t' = tree t \<and> voterMap t' = voterMap t"
  "addVoters pf emails t = (Inl er, t') \<Longrightarrow> tree t' = tree t \<and> voterMap t' = voterMap t"
  "updateVoter pf oldEmail newEmail t = (Inl er, t') \<Longrightarrow> tree t' = tree t \<and> voterMap t' = voterMap t"
  by (auto simp: addVoter_def addVoters_def updateVoter_def Let_def
      split: if_splits sum.splits prod.splits option.splits)

lemma split_on_nonempty: "split_on sep s \<noteq> []"
  by (induction s) (auto split: list.splits)





text \<open>The depths that the tests of the repository expect.\<close>

lemma calculateDepth_tests:
  "map calculateDepth [0, 1, 2, 3, 4, 5, 8, 16, 100, 1000] = [1, 0, 1, 2, 2, 3, 3, 4, 7, 10]"
  by code_simp

section \<open>Vote.cast: the vote vector\<close>

lemma encryptVotes_result:
  assumes ok: "curve_ok cv" and sk: "1 \<le> sk" "sk < curve_n cv"
  shows "\<forall>j < length order. int (rand (k0 + j)) mod curve_n cv \<noteq> 0 \<Longrightarrow>
     \<exists>evs. encryptVotes cv s (publicKey (newKeyPair cv \<lparr>priv_x = sk\<rparr>)) rand k0 order acc
              = Inr (acc @ evs) \<and>
           length evs = length order \<and>
           (\<forall>j < length order. holds cv sk (evs ! j) (if order ! j = s then 1 else 0))"
proof (induction order arbitrary: k0 acc)
  case Nil
  then show ?case by simp
next
  case (Cons cid rest)
  let ?v = "if cid = s then 1 else 0 :: int"
  let ?pk = "publicKey (newKeyPair cv \<lparr>priv_x = sk\<rparr>)"
  have v: "0 \<le> ?v" "?v \<le> int MAX_VOTES" by (simp_all add: MAX_VOTES_def)
  from Cons.prems have r0: "int (rand k0) mod curve_n cv \<noteq> 0" by force
  from encrypt_holds[OF ok sk v r0] obtain ct
    where e: "encrypt cv ?v ?pk (rand k0) = Inr ct" and h: "holds cv sk ct (nat ?v)"
    by blast
  have "\<forall>j < length rest. int (rand (Suc k0 + j)) mod curve_n cv \<noteq> 0"
    using Cons.prems by force
  from Cons.IH[OF this, of "acc @ [ct]"] obtain evs
    where r: "encryptVotes cv s ?pk rand (Suc k0) rest (acc @ [ct]) = Inr ((acc @ [ct]) @ evs)"
      and l: "length evs = length rest"
      and hs: "\<forall>j < length rest. holds cv sk (evs ! j) (if rest ! j = s then 1 else 0)"
    by blast
  have hv: "holds cv sk ct (if cid = s then 1 else 0)" using h by (simp split: if_splits)
  have "\<forall>j < length (cid # rest). holds cv sk ((ct # evs) ! j) (if (cid # rest) ! j = s then 1 else 0)"
  proof (intro allI impI)
    fix j assume "j < length (cid # rest)"
    then show "holds cv sk ((ct # evs) ! j) (if (cid # rest) ! j = s then 1 else 0)"
      using hv hs by (cases j) simp_all
  qed
  then show ?case
    by (intro exI[of _ "ct # evs"]) (simp add: e r l Let_def)
qed

lemma length_filter_index:
  "length (filter (\<lambda>k. P (xs ! k)) [0 ..< length xs]) = length (filter P xs)"
proof -
  have "filter P xs = filter P (map (nth xs) [0 ..< length xs])" by (simp only: map_nth)
  also have "\<dots> = map (nth xs) (filter (P \<circ> nth xs) [0 ..< length xs])" by (rule filter_map)
  finally have "length (filter P xs) = length (filter (P \<circ> nth xs) [0 ..< length xs])" by simp
  then show ?thesis by (simp add: comp_def)
qed

lemma count_positions:
  "length (filter (\<lambda>k. xs ! k = s) [0 ..< length xs]) = count_list xs s"
proof -
  have "count_list xs s = length (filter ((=) s) xs)" by (rule count_list_eq_length_filter)
  also have "filter ((=) s) xs = filter (\<lambda>y. y = s) xs" by (rule filter_cong) auto
  finally show ?thesis using length_filter_index[of "\<lambda>y. y = s" xs] by simp
qed

lemma cast_positions:
  assumes ok: "curve_ok cv" and sk: "1 \<le> sk" "sk < curve_n cv"
    and rs: "\<forall>j < length order. int (rand j) mod curve_n cv \<noteq> 0"
  shows "\<exists>vote. cast cv pf sem rand now voterIdentity electionGroup s order
                  (publicKey (newKeyPair cv \<lparr>priv_x = sk\<rparr>)) electionId = Inr vote \<and>
           candidateOrder (voteVector vote) = order \<and>
           length (encryptedVotes (voteVector vote)) = length order \<and>
           (\<forall>k < length order.
              decrypt cv (newKeyPair cv \<lparr>priv_x = sk\<rparr>) (encryptedVotes (voteVector vote) ! k)
                = Inr (if order ! k = s then 1 else 0)) \<and>
           onePositions cv (newKeyPair cv \<lparr>priv_x = sk\<rparr>) vote
             = filter (\<lambda>k. order ! k = s) [0 ..< length order]"
proof -
  let ?kp = "newKeyPair cv \<lparr>priv_x = sk\<rparr>"
  from rs have "\<forall>j < length order. int (rand (0 + j)) mod curve_n cv \<noteq> 0" by simp
  from encryptVotes_result[OF ok sk this, of s "[]"] obtain evs
    where e: "encryptVotes cv s (publicKey ?kp) rand 0 order [] = Inr evs"
      and l: "length evs = length order"
      and hs: "\<forall>j < length order. holds cv sk (evs ! j) (if order ! j = s then 1 else 0)"
    by auto
  let ?vv = "\<lparr>encryptedVotes = evs, candidateOrder = order\<rparr>"
  let ?vote = "newVote pf sem now ?vv
                 (generateProof sem voterIdentity electionGroup (hashVoteVector pf ?vv) electionId)
                 electionId"
  have c: "cast cv pf sem rand now voterIdentity electionGroup s order (publicKey ?kp) electionId
           = Inr ?vote"
    by (simp add: cast_def e Let_def)
  have vv: "voteVector ?vote = ?vv" by (simp add: newVote_def Let_def)
  have d: "\<forall>k < length order. decrypt cv ?kp (evs ! k) = Inr (if order ! k = s then 1 else 0)"
  proof (intro allI impI)
    fix k assume k: "k < length order"
    let ?M = "if order ! k = s then 1 else 0 :: nat"
    have "decrypt cv ?kp (evs ! k) = Inr (int ?M)"
      by (rule decrypt_holds[OF ok])
         (use sk hs k in \<open>simp_all add: newKeyPair_def MAX_VOTES_def\<close>)
    then show "decrypt cv ?kp (evs ! k) = Inr (if order ! k = s then 1 else 0)" by simp
  qed
  have "filter (\<lambda>k. decrypt cv ?kp (evs ! k) = Inr 1) [0 ..< length evs]
        = filter (\<lambda>k. order ! k = s) [0 ..< length order]"
    unfolding l by (rule filter_cong) (use d in auto)
  then have o: "onePositions cv ?kp ?vote = filter (\<lambda>k. order ! k = s) [0 ..< length order]"
    by (simp add: onePositions_def vv)
  show ?thesis
    by (rule exI[of _ ?vote]) (use c vv l d o in simp)
qed

text \<open>
  Claim C4, as amended. \<^verbatim>\<open>Vote.cast\<close> returns a vote whose vector has one ciphertext per
  entry of the candidate order; position \<open>k\<close> decrypts to 1 when \<open>id\<^sub>k\<close> is the selected
  candidate and to 0 otherwise. So the number of positions that encrypt 1 is the number of
  occurrences of the selected id in the candidate order: exactly one when it occurs once.
\<close>

theorem cast_one_per_occurrence:
  assumes "curve_ok cv" and "1 \<le> sk" and "sk < curve_n cv"
    and "\<forall>j < length order. int (rand j) mod curve_n cv \<noteq> 0"
  shows "\<exists>vote. cast cv pf sem rand now voterIdentity electionGroup s order
                  (publicKey (newKeyPair cv \<lparr>priv_x = sk\<rparr>)) electionId = Inr vote \<and>
           candidateOrder (voteVector vote) = order \<and>
           length (encryptedVotes (voteVector vote)) = length order \<and>
           (\<forall>k < length order.
              decrypt cv (newKeyPair cv \<lparr>priv_x = sk\<rparr>) (encryptedVotes (voteVector vote) ! k)
                = Inr (if order ! k = s then 1 else 0)) \<and>
           length (onePositions cv (newKeyPair cv \<lparr>priv_x = sk\<rparr>) vote) = count_list order s"
proof -
  from cast_positions[OF assms, of pf sem now voterIdentity electionGroup s electionId]
  obtain vote where
    v: "cast cv pf sem rand now voterIdentity electionGroup s order
          (publicKey (newKeyPair cv \<lparr>priv_x = sk\<rparr>)) electionId = Inr vote"
       "candidateOrder (voteVector vote) = order"
       "length (encryptedVotes (voteVector vote)) = length order"
       "\<forall>k < length order.
              decrypt cv (newKeyPair cv \<lparr>priv_x = sk\<rparr>) (encryptedVotes (voteVector vote) ! k)
                = Inr (if order ! k = s then 1 else 0)"
    and o: "onePositions cv (newKeyPair cv \<lparr>priv_x = sk\<rparr>) vote
             = filter (\<lambda>k. order ! k = s) [0 ..< length order]"
    by blast
  have "length (onePositions cv (newKeyPair cv \<lparr>priv_x = sk\<rparr>) vote) = count_list order s"
    unfolding o by (rule count_positions)
  with v show ?thesis by blast
qed

lemma toy_cast_hyps:
  "(1::int) \<le> 6" "6 < curve_n toyCurve"
  "\<forall>j < length [''alice'', ''bob'']. int (Suc j) mod curve_n toyCurve \<noteq> 0"
  by (auto simp: toyCurve_def less_Suc_eq)

theorem cast_one_per_occurrence_witness:
  "curve_ok toyCurve \<and> (1::int) \<le> 6 \<and> 6 < curve_n toyCurve \<and>
   list_all (\<lambda>j. int (Suc j) mod curve_n toyCurve \<noteq> 0) [0 ..< length [''alice'', ''bob'']] \<and>
   (\<exists>vote. cast toyCurve toyPlatform toySemaphore Suc 2 ''a@x:e1'' [6] ''bob'' [''alice'', ''bob'']
             (publicKey toyKeyPair) ''e1'' = Inr vote \<and>
           decrypt toyCurve toyKeyPair (encryptedVotes (voteVector vote) ! 0) = Inr 0 \<and>
           decrypt toyCurve toyKeyPair (encryptedVotes (voteVector vote) ! 1) = Inr 1 \<and>
           length (onePositions toyCurve toyKeyPair vote) = 1)"
proof -
  have l: "list_all (\<lambda>j. int (Suc j) mod curve_n toyCurve \<noteq> 0) [0 ..< length [''alice'', ''bob'']]"
    by (simp add: toyCurve_def upt_rec)
  from cast_one_per_occurrence[OF curve_ok_toyCurve toy_cast_hyps,
      of toyPlatform toySemaphore 2 "''a@x:e1''" "[6]" "''bob''" "''e1''"]
  obtain vote where
    "cast toyCurve toyPlatform toySemaphore Suc 2 ''a@x:e1'' [6] ''bob'' [''alice'', ''bob'']
       (publicKey toyKeyPair) ''e1'' = Inr vote"
    "\<forall>k < length [''alice'', ''bob''].
       decrypt toyCurve toyKeyPair (encryptedVotes (voteVector vote) ! k)
         = Inr (if [''alice'', ''bob''] ! k = ''bob'' then 1 else 0)"
    "length (onePositions toyCurve toyKeyPair vote) = count_list [''alice'', ''bob''] ''bob''"
    unfolding toyKeyPair_def by blast
  then have "cast toyCurve toyPlatform toySemaphore Suc 2 ''a@x:e1'' [6] ''bob'' [''alice'', ''bob'']
       (publicKey toyKeyPair) ''e1'' = Inr vote \<and>
           decrypt toyCurve toyKeyPair (encryptedVotes (voteVector vote) ! 0) = Inr 0 \<and>
           decrypt toyCurve toyKeyPair (encryptedVotes (voteVector vote) ! 1) = Inr 1 \<and>
           length (onePositions toyCurve toyKeyPair vote) = 1"
    by (simp add: less_Suc_eq all_conj_distrib)
  with curve_ok_toyCurve toy_cast_hyps(1,2) l show ?thesis by blast
qed

text \<open>
  Claim C4 as stated fails: \<^verbatim>\<open>cast\<close> does not check that the selected id is a candidate.
  For the selection \<^verbatim>\<open>dave\<close> and the candidates \<^verbatim>\<open>alice\<close>, \<^verbatim>\<open>bob\<close> it returns a vote in
  which no position encrypts 1.
\<close>

theorem cast_absent_candidate_no_one:
  "\<exists>vote. cast toyCurve toyPlatform toySemaphore Suc 2 ''a@x:e1'' [6] ''dave'' [''alice'', ''bob'']
            (publicKey toyKeyPair) ''e1'' = Inr vote \<and>
          onePositions toyCurve toyKeyPair vote = []"
proof -
  from cast_positions[OF curve_ok_toyCurve toy_cast_hyps,
      of toyPlatform toySemaphore 2 "''a@x:e1''" "[6]" "''dave''" "''e1''"]
  obtain vote where
    "cast toyCurve toyPlatform toySemaphore Suc 2 ''a@x:e1'' [6] ''dave'' [''alice'', ''bob'']
       (publicKey toyKeyPair) ''e1'' = Inr vote"
    "onePositions toyCurve toyKeyPair vote
       = filter (\<lambda>k. [''alice'', ''bob''] ! k = ''dave'') [0 ..< length [''alice'', ''bob'']]"
    unfolding toyKeyPair_def by blast
  moreover have "filter (\<lambda>k. [''alice'', ''bob''] ! k = ''dave'') [0 ..< length [''alice'', ''bob'']] = []"
    by (auto simp: filter_empty_conv less_Suc_eq)
  ultimately show ?thesis by auto
qed

section \<open>Election.import and the stored public key\<close>


lemma import_ignores_publicKey:
  "Election_import cv pf now (state\<lparr>st_publicKey := k\<rparr>) password
     = Election_import cv pf now state password"
  by (simp add: Election_import_def)



end
